theory Spec2Isabelle
  imports Main "HOL-Library.Sublist"
begin

section \<open>Python values and exceptions\<close>

text \<open>
  Python strings are modelled as \<open>string\<close>. Exceptions are values: a class and the
  message, returned as \<open>Inl\<close> of a sum. The classes are those of \<open>prtg/client.py\<close>
  (\<open>PRTGClientError\<close> and its three subclasses) and the builtin, configparser and
  pydantic classes that the modelled code can raise or let through.
\<close>

datatype exc_class =
    PRTGClientError
  | PRTGAuthenticationError
  | PRTGNotFoundError
  | PRTGAPIError
  | ValueError
  | TypeError
  | ValidationError
  | OverflowError
  | InterpolationSyntaxError
  | UnicodeEncodeError
  | OSError

type_synonym exc = "exc_class \<times> string"

text \<open>
  \<open>issubclass a b\<close>: the three specific client errors derive from \<open>PRTGClientError\<close>;
  \<open>UnicodeEncodeError\<close> and pydantic's \<open>ValidationError\<close> derive from \<open>ValueError\<close>.
\<close>

fun issubclass :: "exc_class \<Rightarrow> exc_class \<Rightarrow> bool" where
  "issubclass PRTGAuthenticationError PRTGClientError = True"
| "issubclass PRTGNotFoundError PRTGClientError = True"
| "issubclass PRTGAPIError PRTGClientError = True"
| "issubclass UnicodeEncodeError ValueError = True"
| "issubclass ValidationError ValueError = True"
| "issubclass a b = (a = b)"

definition isinstance :: "exc \<Rightarrow> exc_class \<Rightarrow> bool" where
  "isinstance e c = issubclass (fst e) c"

section \<open>Configuration (prtg/config.py)\<close>

record PRTGConfig =
  url :: string
  api_token :: string
  verify_ssl :: bool
  profile :: string

text \<open>\<open>str.rstrip("/")\<close> removes every trailing slash.\<close>

definition rstrip_slash :: "string \<Rightarrow> string" where
  "rstrip_slash s = rev (dropWhile (\<lambda>c. c = CHR ''/'') (rev s))"

definition startswith :: "string \<Rightarrow> string \<Rightarrow> bool" where
  "startswith s p = (take (length p) s = p)"

text \<open>
  \<open>PRTGConfig.__post_init__\<close>: the two emptiness checks, then the trailing slashes are
  removed and the scheme is defaulted.
\<close>

definition PRTGConfig_post_init :: "PRTGConfig \<Rightarrow> exc + PRTGConfig" where
  "PRTGConfig_post_init c =
     (if url c = [] then Inl (ValueError, ''PRTG URL is required'')
      else if api_token c = [] then Inl (ValueError, ''API token is required'')
      else
        let c1 = c\<lparr>url := rstrip_slash (url c)\<rparr> in
        if \<not> (startswith (url c1) ''http://'' \<or> startswith (url c1) ''https://'')
        then Inr (c1\<lparr>url := ''https://'' @ url c1\<rparr>)
        else Inr c1)"

text \<open>
  The environment is a map from variable names to values. A \<open>ConfigParser\<close> is taken
  by its two operations that \<open>_get_from_file\<close> uses: \<open>has_section\<close> and
  \<open>get(profile, key, fallback=None)\<close>. The latter returns the interpolated value,
  or \<open>None\<close> for a missing option, or raises an interpolation error (a stray
  \<open>%\<close> in the value), which nothing in \<open>get_config\<close> catches.
\<close>

type_synonym environ = "string \<rightharpoonup> string"

record ConfigParser =
  has_section :: "string \<Rightarrow> bool"
  get_fallback_None :: "string \<Rightarrow> string \<Rightarrow> exc + string option"

definition ENV_PREFIX :: string where
  "ENV_PREFIX = ''PRTG_''"

definition get_env :: "environ \<Rightarrow> string \<Rightarrow> string option" where
  "get_env env key = env (ENV_PREFIX @ key)"

definition get_from_file :: "ConfigParser \<Rightarrow> string \<Rightarrow> string \<Rightarrow> exc + string option" where
  "get_from_file parser prof key =
     (if \<not> has_section parser prof then Inr None else get_fallback_None parser prof key)"

text \<open>
  Python's \<open>a or b\<close> on optional strings: \<open>a\<close> when it is truthy (neither \<open>None\<close>
  nor empty), else \<open>b\<close> as it is.
\<close>

definition truthy :: "string option \<Rightarrow> bool" where
  "truthy a = (case a of None \<Rightarrow> False | Some s \<Rightarrow> s \<noteq> [])"

definition py_or :: "string option \<Rightarrow> string option \<Rightarrow> string option" where
  "py_or a b = (if truthy a then a else b)"

text \<open>
  \<open>a or b\<close> where evaluating an operand may raise: \<open>b\<close> is evaluated only when
  \<open>a\<close> is falsy, so an exception of \<open>b\<close> surfaces only then.
\<close>

definition or_else :: "exc + string option \<Rightarrow> exc + string option \<Rightarrow> exc + string option" where
  "or_else a b = (case a of Inl e \<Rightarrow> Inl e | Inr x \<Rightarrow> if truthy x then Inr x else b)"

definition or_empty :: "string option \<Rightarrow> string" where
  "or_empty a = (case a of None \<Rightarrow> [] | Some s \<Rightarrow> s)"

text \<open>\<open>str.lower\<close> on the characters the model has (code points below 256).\<close>

definition lower_char :: "char \<Rightarrow> char" where
  "lower_char c =
     (let n = of_char c :: nat in
      if (65 \<le> n \<and> n \<le> 90) \<or> (192 \<le> n \<and> n \<le> 222 \<and> n \<noteq> 215)
      then char_of (n + 32) else c)"

definition lower :: "string \<Rightarrow> string" where
  "lower s = map lower_char s"

definition resolve_verify_ssl ::
  "environ \<Rightarrow> ConfigParser \<Rightarrow> string \<Rightarrow> bool option \<Rightarrow> exc + bool" where
  "resolve_verify_ssl env parser prof verify_ssl_arg =
     (case verify_ssl_arg of
        Some b \<Rightarrow> Inr b
      | None \<Rightarrow>
          let env_verify = get_env env ''NO_VERIFY_SSL'' in
          if truthy env_verify
          then Inr (lower (or_empty env_verify) \<notin> set [''1'', ''true'', ''yes''])
          else
            (case get_from_file parser prof ''verify_ssl'' of
               Inl e \<Rightarrow> Inl e
             | Inr file_verify \<Rightarrow>
                 if truthy file_verify
                 then Inr (lower (or_empty file_verify) \<in> set [''true'', ''yes'', ''1''])
                 else Inr True))"

text \<open>
  \<open>ConfigManager.get_config\<close>. The statements run in the source's order: profile,
  URL, token, \<open>verify_ssl\<close>, then the \<open>PRTGConfig\<close> constructor; the first
  exception ends the call.
\<close>

definition get_config ::
  "environ \<Rightarrow> ConfigParser \<Rightarrow> string option \<Rightarrow> string option \<Rightarrow> string option \<Rightarrow> bool option
     \<Rightarrow> exc + PRTGConfig" where
  "get_config env parser profile_arg url_arg api_token_arg verify_ssl_arg =
     (let prof = or_empty (py_or profile_arg (py_or (get_env env ''PROFILE'') (Some ''default'')))
      in
      case or_else (Inr url_arg)
             (or_else (Inr (get_env env ''URL'')) (get_from_file parser prof ''url'')) of
        Inl e \<Rightarrow> Inl e
      | Inr config_url \<Rightarrow>
          (case or_else (Inr api_token_arg)
                  (or_else (Inr (get_env env ''API_TOKEN''))
                    (or_else (Inr (get_env env ''API_TOKEN_RW''))
                      (or_else (Inr (get_env env ''API_TOKEN_RO''))
                        (or_else (get_from_file parser prof ''api_token'')
                          (or_else (get_from_file parser prof ''api_token_rw'')
                            (get_from_file parser prof ''api_token_ro'')))))) of
             Inl e \<Rightarrow> Inl e
           | Inr config_api_token \<Rightarrow>
               (case resolve_verify_ssl env parser prof verify_ssl_arg of
                  Inl e \<Rightarrow> Inl e
                | Inr config_verify_ssl \<Rightarrow>
                    PRTGConfig_post_init
                      \<lparr>url = or_empty (py_or config_url (Some [])),
                       api_token = or_empty (py_or config_api_token (Some [])),
                       verify_ssl = config_verify_ssl,
                       profile = prof\<rparr>)))"

subsection \<open>Precedence as the specification words it\<close>


subsection \<open>The normalization as the specification words it\<close>

text \<open>
  The specification's wording of the URL normalization, for comparison with
  \<open>PRTGConfig_post_init\<close>: strip exactly one trailing slash if present, then default
  the scheme.
\<close>

definition spec_strip_one_slash :: "string \<Rightarrow> string" where
  "spec_strip_one_slash s = (if s \<noteq> [] \<and> last s = CHR ''/'' then butlast s else s)"

definition spec_normalize_url :: "string \<Rightarrow> string" where
  "spec_normalize_url s =
     (let r = spec_strip_one_slash s in
      if startswith r ''http://'' \<or> startswith r ''https://'' then r else ''https://'' @ r)"

section \<open>Values, requests and responses\<close>

text \<open>
  JSON-like Python values, as they occur in request parameters and decoded response
  bodies. A float is carried by its printed text.
\<close>

datatype pyval =
    PyNone
  | PyBool bool
  | PyInt int
  | PyFloat string
  | PyStr string
  | PyList "pyval list"
  | PyDict "(string \<times> pyval) list"

text \<open>The keyword arguments of \<open>session.request\<close>; \<open>params\<close> is a dict.\<close>

record http_request =
  req_method :: string
  req_url :: string
  req_params :: "string \<rightharpoonup> pyval"
  req_verify :: bool
  req_timeout :: nat

text \<open>
  A response: its status code, its text and what \<open>response.json()\<close> gives, which is
  the decoded value or a \<open>requests.exceptions.JSONDecodeError\<close> (a
  \<open>RequestException\<close>) with its message.
\<close>

record http_response =
  status_code :: int
  resp_text :: string
  resp_json :: "string + pyval"

text \<open>
  What \<open>session.request\<close> raises, by the first \<open>except\<close> clause of the client that
  catches it (the clauses are tried in this order), with the exception's text.
\<close>

datatype requests_exception =
    SSLError string
  | ConnectionError string
  | Timeout string
  | RequestException string

text \<open>
  \<open>session.request\<close> returns a response, raises an exception of the requests
  hierarchy, or raises any other exception (a \<open>UnicodeEncodeError\<close> for a parameter
  that cannot be encoded, an \<open>OSError\<close> for an unreadable certificate bundle), which
  none of the client's \<open>except\<close> clauses catches.
\<close>

datatype transport_result =
    Response http_response
  | Raises requests_exception
  | RaisesOther exc

text \<open>
  The server and the network are a function from the requests issued so far and the
  current request to the outcome of \<open>session.request\<close> (after the retries of the mounted
  adapter). The state threaded through the client is the log of requests issued.
\<close>

type_synonym server = "http_request list \<Rightarrow> http_request \<Rightarrow> transport_result"

definition session_request ::
  "server \<Rightarrow> http_request \<Rightarrow> http_request list \<Rightarrow> transport_result \<times> http_request list" where
  "session_request srv req log = (srv log req, log @ [req])"

text \<open>Decimal text of an integer, for \<open>f"{response.status_code}"\<close>.\<close>

fun nat_digits :: "nat \<Rightarrow> string" where
  "nat_digits n =
     (if n < 10 then [char_of (48 + n)] else nat_digits (n div 10) @ [char_of (48 + n mod 10)])"

declare nat_digits.simps [simp del]

definition str_int :: "int \<Rightarrow> string" where
  "str_int i = (if i < 0 then CHR ''-'' # nat_digits (nat (- i)) else nat_digits (nat i))"

text \<open>\<open>str.strip()\<close> and the substring test \<open>sub in s\<close>.\<close>

definition py_isspace :: "char \<Rightarrow> bool" where
  "py_isspace c =
     (let n = of_char c :: nat in
      (9 \<le> n \<and> n \<le> 13) \<or> (28 \<le> n \<and> n \<le> 32) \<or> n = 133 \<or> n = 160)"

definition strip :: "string \<Rightarrow> string" where
  "strip s = rev (dropWhile py_isspace (rev (dropWhile py_isspace s)))"

fun py_in :: "string \<Rightarrow> string \<Rightarrow> bool" where
  "py_in sub [] = (sub = [])"
| "py_in sub (c # cs) = (startswith (c # cs) sub \<or> py_in sub cs)"

section \<open>The client (prtg/client.py)\<close>

definition base_url :: "PRTGConfig \<Rightarrow> string" where
  "base_url cfg = url cfg @ ''/api''"

definition build_auth_params :: "PRTGConfig \<Rightarrow> (string \<rightharpoonup> pyval)" where
  "build_auth_params cfg = [''apitoken'' \<mapsto> PyStr (api_token cfg)]"

text \<open>
  The four \<open>except requests.exceptions...\<close> clauses that \<open>_request\<close>,
  \<open>get_sensor_historicdata\<close> and \<open>move_device\<close> share.
\<close>

definition wrap_requests_exception :: "PRTGConfig \<Rightarrow> requests_exception \<Rightarrow> exc" where
  "wrap_requests_exception cfg e =
     (case e of
        SSLError m \<Rightarrow>
          (PRTGClientError,
           ''SSL verification failed. Use --no-verify-ssl to disable verification. Error: '' @ m)
      | ConnectionError m \<Rightarrow>
          (PRTGClientError, ''Connection error: Unable to connect to '' @ url cfg @ ''. Error: '' @ m)
      | Timeout m \<Rightarrow> (PRTGClientError, ''Request timeout: '' @ m)
      | RequestException m \<Rightarrow> (PRTGClientError, ''Request failed: '' @ m))"

text \<open>
  \<open>PRTGClient._request\<close>. The dict \<open>request_params\<close> starts as the auth parameters and
  is updated with \<open>params\<close> (\<open>dict.update\<close>: a key of \<open>params\<close> replaces an equal key);
  updating with an empty dict changes nothing, so the guard \<open>if params\<close> only matters
  for \<open>None\<close>. After the three status checks \<open>raise_for_status\<close> cannot raise.
\<close>

definition request ::
  "PRTGConfig \<Rightarrow> server \<Rightarrow> string \<Rightarrow> (string \<rightharpoonup> pyval) option \<Rightarrow> string \<Rightarrow> http_request list
     \<Rightarrow> (exc + pyval) \<times> http_request list" where
  "request cfg srv endpoint params method log =
     (let u = base_url cfg @ ''/'' @ endpoint;
          request_params =
            (case params of
               None \<Rightarrow> build_auth_params cfg
             | Some p \<Rightarrow> build_auth_params cfg ++ p);
          (res, log') =
            session_request srv
              \<lparr>req_method = method, req_url = u, req_params = request_params,
               req_verify = verify_ssl cfg, req_timeout = 30\<rparr> log
      in case res of
           Raises e \<Rightarrow> (Inl (wrap_requests_exception cfg e), log')
         | RaisesOther e \<Rightarrow> (Inl e, log')
         | Response r \<Rightarrow>
             if status_code r = 401
             then (Inl (PRTGAuthenticationError,
                        ''Authentication failed. Check username and passhash.''), log')
             else if status_code r = 404
             then (Inl (PRTGNotFoundError, ''Resource not found: '' @ endpoint), log')
             else if status_code r \<ge> 400
             then (Inl (PRTGAPIError,
                        ''API error: '' @ str_int (status_code r) @ '' - '' @ resp_text r), log')
             else (case resp_json r of
                     Inl m \<Rightarrow> (Inl (wrap_requests_exception cfg (RequestException m)), log')
                   | Inr j \<Rightarrow> (Inr j, log')))"

text \<open>\<open>PRTGClient.get_sensor_historicdata\<close>.\<close>

definition get_sensor_historicdata ::
  "PRTGConfig \<Rightarrow> server \<Rightarrow> string \<Rightarrow> string \<Rightarrow> string \<Rightarrow> int \<Rightarrow> string \<Rightarrow> http_request list
     \<Rightarrow> (exc + pyval) \<times> http_request list" where
  "get_sensor_historicdata cfg srv sensor_id start_date end_date avg_interval output_format log =
     (let endpoint = ''historicdata.'' @ output_format;
          params = [''id'' \<mapsto> PyStr sensor_id, ''sdate'' \<mapsto> PyStr start_date,
                    ''edate'' \<mapsto> PyStr end_date, ''avg'' \<mapsto> PyInt avg_interval];
          u = base_url cfg @ ''/'' @ endpoint;
          request_params = build_auth_params cfg ++ params;
          (res, log') =
            session_request srv
              \<lparr>req_method = ''GET'', req_url = u, req_params = request_params,
               req_verify = verify_ssl cfg, req_timeout = 30\<rparr> log
      in case res of
           Raises e \<Rightarrow> (Inl (wrap_requests_exception cfg e), log')
         | RaisesOther e \<Rightarrow> (Inl e, log')
         | Response r \<Rightarrow>
             if status_code r = 429
             then (Inl (PRTGAPIError,
                        ''Rate limit exceeded (5 requests per minute for historic data). '' @
                        ''Please wait 60 seconds before trying again.''), log')
             else if status_code r = 401
             then (Inl (PRTGAuthenticationError, ''Authentication failed. Check API token.''), log')
             else if status_code r = 404
             then (Inl (PRTGNotFoundError, ''Sensor not found: '' @ sensor_id), log')
             else if status_code r \<ge> 400
             then (Inl (PRTGAPIError,
                        ''API error: '' @ str_int (status_code r) @ '' - '' @ resp_text r), log')
             else if output_format = ''csv'' then (Inr (PyStr (resp_text r)), log')
             else (case resp_json r of
                     Inl m \<Rightarrow> (Inl (wrap_requests_exception cfg (RequestException m)), log')
                   | Inr j \<Rightarrow> (Inr j, log')))"

text \<open>\<open>PRTGClient.move_device\<close>: the request goes to \<open>{url}/moveobjectnow.htm\<close>.\<close>

definition move_request :: "PRTGConfig \<Rightarrow> string \<Rightarrow> string \<Rightarrow> http_request" where
  "move_request cfg device_id target_group_id =
     \<lparr>req_method = ''GET'', req_url = url cfg @ ''/moveobjectnow.htm'',
      req_params = build_auth_params cfg ++
                   [''id'' \<mapsto> PyStr device_id, ''targetid'' \<mapsto> PyStr target_group_id],
      req_verify = verify_ssl cfg, req_timeout = 30\<rparr>"

definition move_device ::
  "PRTGConfig \<Rightarrow> server \<Rightarrow> string \<Rightarrow> string \<Rightarrow> http_request list
     \<Rightarrow> (exc + bool) \<times> http_request list" where
  "move_device cfg srv device_id target_group_id log =
     (let (res, log') = session_request srv (move_request cfg device_id target_group_id) log
      in case res of
           Raises e \<Rightarrow> (Inl (wrap_requests_exception cfg e), log')
         | RaisesOther e \<Rightarrow> (Inl e, log')
         | Response r \<Rightarrow>
             if status_code r = 401
             then (Inl (PRTGAuthenticationError, ''Authentication failed. Check API token.''), log')
             else if status_code r = 404
             then (Inl (PRTGNotFoundError,
                        ''Device or target group not found: '' @ device_id @ '' -> '' @
                        target_group_id), log')
             else if status_code r \<ge> 400
             then (Inl (PRTGAPIError,
                        ''API error: '' @ str_int (status_code r) @ '' - '' @ resp_text r), log')
             else
               let response_text = lower (strip (resp_text r)) in
               if py_in ''ok'' response_text then (Inr True, log')
               else (Inl (PRTGAPIError,
                          ''Unexpected response from move operation: '' @ resp_text r), log'))"

text \<open>
  \<open>PRTGClient.move_devices\<close>. A result dict has the keys \<open>device_id\<close> and \<open>success\<close>,
  and \<open>error\<close> only in the failure case. An exception that the \<open>except\<close> tuple does
  not catch leaves the loop and the results gathered so far are lost.
\<close>

record move_result =
  device_id :: string
  success :: bool
  error :: "string option"

fun move_devices_loop ::
  "PRTGConfig \<Rightarrow> server \<Rightarrow> string \<Rightarrow> move_result list \<Rightarrow> string list \<Rightarrow> http_request list
     \<Rightarrow> (exc + move_result list) \<times> http_request list" where
  "move_devices_loop cfg srv target_group_id results [] log = (Inr results, log)"
| "move_devices_loop cfg srv target_group_id results (d # ds) log =
     (case move_device cfg srv d target_group_id log of
        (Inr _, log') \<Rightarrow>
          move_devices_loop cfg srv target_group_id
            (results @ [\<lparr>device_id = d, success = True, error = None\<rparr>]) ds log'
      | (Inl e, log') \<Rightarrow>
          if isinstance e PRTGClientError \<or> isinstance e PRTGAPIError \<or> isinstance e PRTGNotFoundError
          then move_devices_loop cfg srv target_group_id
                 (results @ [\<lparr>device_id = d, success = False, error = Some (snd e)\<rparr>]) ds log'
          else (Inl e, log'))"

definition move_devices ::
  "PRTGConfig \<Rightarrow> server \<Rightarrow> string list \<Rightarrow> string \<Rightarrow> http_request list
     \<Rightarrow> (exc + move_result list) \<times> http_request list" where
  "move_devices cfg srv device_ids target_group_id log =
     move_devices_loop cfg srv target_group_id [] device_ids log"

section \<open>Response models (prtg/models)\<close>

text \<open>
  The models are pydantic classes. What pydantic and the Python builtins do is outside
  the repository; the functions below take the three library operations whose results
  the models depend on as a record: the builtin \<open>str(v)\<close>, pydantic's validation of
  an \<open>int\<close> field (\<open>None\<close>: the value is rejected) and the builtin \<open>int(s)\<close> on a
  string (\<open>None\<close>: \<open>ValueError\<close>).
\<close>

record pylib =
  py_str :: "pyval \<Rightarrow> string"
  pyd_int :: "pyval \<Rightarrow> int option"
  py_int :: "string \<Rightarrow> int option"

text \<open>
  Keyword arguments are a map from names to values; \<open>Model(**d)\<close> on a decoded JSON
  object takes the last value of a repeated key. A validated model instance is the list
  of its fields with their values, in declaration order.
\<close>

type_synonym kwargs = "string \<rightharpoonup> pyval"
type_synonym model_instance = "(string \<times> pyval) list"

definition kwargs_of :: "(string \<times> pyval) list \<Rightarrow> kwargs" where
  "kwargs_of d = map_of (rev d)"

definition attr :: "model_instance \<Rightarrow> string \<Rightarrow> pyval option" where
  "attr inst name = map_of inst name"

definition setattr :: "string \<Rightarrow> pyval \<Rightarrow> model_instance \<Rightarrow> model_instance" where
  "setattr name v inst = map (\<lambda>(k, x). if k = name then (k, v) else (k, x)) inst"

subsection \<open>Field declarations and their validation\<close>

datatype ftype = TStr | TOptStr | TInt | TOptInt | TListStr

text \<open>
  A field: its name, its alias, its annotated type, its default (\<open>None\<close> for a required
  field, \<open>Field(...)\<close>) and its \<open>mode="before"\<close> validator.
\<close>

record field =
  fname :: string
  falias :: "string option"
  ftyp :: ftype
  fdefault :: "pyval option"
  fbefore :: "(pyval \<Rightarrow> pyval) option"

text \<open>
  The whitespace that pydantic's \<open>str_strip_whitespace\<close> removes, and the validation
  of a value against the annotated type: a \<open>str\<close> field takes strings only.
\<close>

definition pyd_isspace :: "char \<Rightarrow> bool" where
  "pyd_isspace c =
     (let n = of_char c :: nat in (9 \<le> n \<and> n \<le> 13) \<or> n = 32 \<or> n = 133 \<or> n = 160)"

definition pyd_strip :: "bool \<Rightarrow> string \<Rightarrow> string" where
  "pyd_strip str_strip_whitespace s =
     (if str_strip_whitespace
      then rev (dropWhile pyd_isspace (rev (dropWhile pyd_isspace s)))
      else s)"

fun all_strs :: "pyval list \<Rightarrow> string list option" where
  "all_strs [] = Some []"
| "all_strs (PyStr s # vs) = (case all_strs vs of None \<Rightarrow> None | Some ss \<Rightarrow> Some (s # ss))"
| "all_strs (_ # vs) = None"

definition pyd_str :: "bool \<Rightarrow> pyval \<Rightarrow> pyval option" where
  "pyd_str sw v = (case v of PyStr s \<Rightarrow> Some (PyStr (pyd_strip sw s)) | _ \<Rightarrow> None)"

definition pyd_validate :: "pylib \<Rightarrow> bool \<Rightarrow> ftype \<Rightarrow> pyval \<Rightarrow> pyval option" where
  "pyd_validate L sw t v =
     (case t of
        TStr \<Rightarrow> pyd_str sw v
      | TOptStr \<Rightarrow> (if v = PyNone then Some PyNone else pyd_str sw v)
      | TInt \<Rightarrow> map_option PyInt (pyd_int L v)
      | TOptInt \<Rightarrow> (if v = PyNone then Some PyNone else map_option PyInt (pyd_int L v))
      | TListStr \<Rightarrow>
          (case v of
             PyList vs \<Rightarrow>
               map_option (\<lambda>ss. PyList (map (\<lambda>s. PyStr (pyd_strip sw s)) ss)) (all_strs vs)
           | _ \<Rightarrow> None))"

text \<open>
  With \<open>populate_by_name\<close> a field with an alias is read from the alias or, when the
  alias is absent, from the field name.
\<close>

definition lookup_field :: "field \<Rightarrow> kwargs \<Rightarrow> pyval option" where
  "lookup_field f kw =
     (case falias f of
        None \<Rightarrow> kw (fname f)
      | Some a \<Rightarrow> (case kw a of Some v \<Rightarrow> Some v | None \<Rightarrow> kw (fname f)))"

text \<open>
  One field: a missing key gives the default, or fails for a required field; a present
  value goes through the before-validator and then the type validation.
\<close>

definition validate_field :: "pylib \<Rightarrow> bool \<Rightarrow> field \<Rightarrow> kwargs \<Rightarrow> pyval option" where
  "validate_field L sw f kw =
     (case lookup_field f kw of
        None \<Rightarrow> fdefault f
      | Some v \<Rightarrow>
          pyd_validate L sw (ftyp f) (case fbefore f of None \<Rightarrow> v | Some g \<Rightarrow> g v))"

text \<open>All fields; keys that no field reads are ignored (\<open>extra = "ignore"\<close>).\<close>

fun validate_fields :: "pylib \<Rightarrow> bool \<Rightarrow> field list \<Rightarrow> kwargs \<Rightarrow> model_instance option" where
  "validate_fields L sw [] kw = Some []"
| "validate_fields L sw (f # fs) kw =
     (case validate_field L sw f kw of
        None \<Rightarrow> None
      | Some v \<Rightarrow>
          (case validate_fields L sw fs kw of
             None \<Rightarrow> None
           | Some r \<Rightarrow> Some ((fname f, v) # r)))"

definition validation_error :: "string \<Rightarrow> exc" where
  "validation_error model = (ValidationError, ''validation error for '' @ model)"

text \<open>Shorthands for the field declarations that recur.\<close>

definition required_str :: "string \<Rightarrow> (pyval \<Rightarrow> pyval) option \<Rightarrow> field" where
  "required_str n b = \<lparr>fname = n, falias = None, ftyp = TStr, fdefault = None, fbefore = b\<rparr>"

definition default_str :: "string \<Rightarrow> string \<Rightarrow> (pyval \<Rightarrow> pyval) option \<Rightarrow> field" where
  "default_str n d b =
     \<lparr>fname = n, falias = None, ftyp = TStr, fdefault = Some (PyStr d), fbefore = b\<rparr>"

definition optional_str :: "string \<Rightarrow> (pyval \<Rightarrow> pyval) option \<Rightarrow> field" where
  "optional_str n b =
     \<lparr>fname = n, falias = None, ftyp = TOptStr, fdefault = Some PyNone, fbefore = b\<rparr>"

definition optional_int :: "string \<Rightarrow> field" where
  "optional_int n =
     \<lparr>fname = n, falias = None, ftyp = TOptInt, fdefault = Some PyNone, fbefore = None\<rparr>"

definition str_list :: "string \<Rightarrow> (pyval \<Rightarrow> pyval) option \<Rightarrow> field" where
  "str_list n b =
     \<lparr>fname = n, falias = None, ftyp = TListStr, fdefault = Some (PyList []), fbefore = b\<rparr>"

subsection \<open>prtg/models/base.py\<close>

text \<open>\<open>str.split()\<close>: the maximal runs of characters that are not whitespace.\<close>

fun split_acc :: "string \<Rightarrow> string \<Rightarrow> string list" where
  "split_acc w [] = (if w = [] then [] else [w])"
| "split_acc w (c # cs) =
     (if py_isspace c then (if w = [] then split_acc [] cs else w # split_acc [] cs)
      else split_acc (w @ [c]) cs)"

definition py_split :: "string \<Rightarrow> string list" where
  "py_split s = split_acc [] s"

definition convert_objid :: "pylib \<Rightarrow> pyval \<Rightarrow> pyval" where
  "convert_objid L v = (if v = PyNone then PyStr [] else PyStr (py_str L v))"

definition parse_tags :: "pyval \<Rightarrow> pyval" where
  "parse_tags v =
     (case v of
        PyStr s \<Rightarrow> PyList (map (\<lambda>tag. PyStr (strip tag)) (filter (\<lambda>tag. strip tag \<noteq> []) (py_split s)))
      | PyList vs \<Rightarrow> PyList vs
      | _ \<Rightarrow> PyList [])"

definition convert_status_raw :: "pylib \<Rightarrow> pyval \<Rightarrow> pyval" where
  "convert_status_raw L v = (if v = PyNone then PyNone else PyStr (py_str L v))"

definition convert_priority_raw :: "pylib \<Rightarrow> pyval \<Rightarrow> pyval" where
  "convert_priority_raw L v = (if v = PyNone then PyNone else PyStr (py_str L v))"

definition PRTGObjectModel_fields :: "pylib \<Rightarrow> field list" where
  "PRTGObjectModel_fields L =
     [required_str ''objid'' (Some (convert_objid L)),
      required_str ''name'' None,
      str_list ''tags'' (Some parse_tags)]"

definition PRTGStatusMixin_fields :: "pylib \<Rightarrow> field list" where
  "PRTGStatusMixin_fields L =
     [required_str ''status'' None,
      optional_str ''status_raw'' (Some (convert_status_raw L)),
      default_str ''message'' [] None]"

definition PRTGPriorityMixin_fields :: "pylib \<Rightarrow> field list" where
  "PRTGPriorityMixin_fields L =
     [optional_str ''priority'' None,
      optional_str ''priority_raw'' (Some (convert_priority_raw L))]"

definition PRTGListResponse_fields :: "field list" where
  "PRTGListResponse_fields =
     [\<lparr>fname = ''prtg_version'', falias = Some ''prtg-version'', ftyp = TOptStr,
       fdefault = Some PyNone, fbefore = None\<rparr>,
      optional_int ''treesize'']"

subsection \<open>prtg/models/device.py\<close>

text \<open>
  \<open>Device\<close> and \<open>Sensor\<close> inherit from the object model and the two mixins;
  pydantic collects the fields from the last base to the first, then the class's own.
\<close>

definition Device_convert_parentid :: "pylib \<Rightarrow> pyval \<Rightarrow> pyval" where
  "Device_convert_parentid L v = (if v = PyNone then PyNone else PyStr (py_str L v))"

definition convert_sensor_count :: "pylib \<Rightarrow> pyval \<Rightarrow> pyval" where
  "convert_sensor_count L v = (if v = PyNone then PyNone else PyStr (py_str L v))"

definition Device_fields :: "pylib \<Rightarrow> field list" where
  "Device_fields L =
     PRTGPriorityMixin_fields L @ PRTGStatusMixin_fields L @ PRTGObjectModel_fields L @
     [optional_str ''device'' None,
      optional_str ''host'' None,
      optional_str ''probe'' None,
      optional_str ''group'' None,
      optional_str ''parentid'' (Some (Device_convert_parentid L)),
      optional_str ''icon'' None,
      optional_str ''location'' None,
      optional_str ''comments'' None,
      optional_int ''sensor_count'',
      optional_str ''upsens'' (Some (convert_sensor_count L)),
      optional_str ''downsens'' (Some (convert_sensor_count L)),
      optional_str ''warnsens'' (Some (convert_sensor_count L)),
      optional_str ''pausedsens'' (Some (convert_sensor_count L)),
      optional_str ''unusualsens'' (Some (convert_sensor_count L)),
      optional_str ''undefinedsens'' None,
      optional_str ''partialdownsens'' None,
      optional_int ''sensor_count_up'',
      optional_int ''sensor_count_down'',
      optional_int ''sensor_count_warning'',
      optional_int ''sensor_count_paused'',
      optional_int ''sensor_count_unusual'',
      optional_str ''lastup'' None,
      optional_str ''lastdown'' None,
      optional_str ''uptime'' None,
      optional_str ''downtime'' None,
      optional_int ''uptime_seconds'',
      optional_int ''downtime_seconds'',
      optional_str ''uptime_percent'' None,
      optional_str ''schedule'' None,
      optional_str ''access_rights'' None,
      str_list ''dependencies'' None]"

text \<open>
  One step of \<open>model_post_init\<close>: when the raw count is set and the integer field is
  not, the integer field becomes \<open>int(raw)\<close>; a \<open>ValueError\<close> leaves it unset.
\<close>

definition derive_count :: "pylib \<Rightarrow> string \<Rightarrow> string \<Rightarrow> model_instance \<Rightarrow> model_instance" where
  "derive_count L src dst inst =
     (case attr inst src of
        Some (PyStr s) \<Rightarrow>
          (if attr inst dst = Some PyNone
           then (case py_int L s of Some i \<Rightarrow> setattr dst (PyInt i) inst | None \<Rightarrow> inst)
           else inst)
      | _ \<Rightarrow> inst)"

definition model_post_init :: "pylib \<Rightarrow> model_instance \<Rightarrow> model_instance" where
  "model_post_init L inst =
     derive_count L ''unusualsens'' ''sensor_count_unusual''
      (derive_count L ''pausedsens'' ''sensor_count_paused''
        (derive_count L ''warnsens'' ''sensor_count_warning''
          (derive_count L ''downsens'' ''sensor_count_down''
            (derive_count L ''upsens'' ''sensor_count_up'' inst))))"

definition Device :: "pylib \<Rightarrow> kwargs \<Rightarrow> exc + model_instance" where
  "Device L kw =
     (case validate_fields L True (Device_fields L) kw of
        None \<Rightarrow> Inl (validation_error ''Device'')
      | Some inst \<Rightarrow> Inr (model_post_init L inst))"

subsection \<open>prtg/models/sensor.py\<close>

definition Sensor_convert_parentid :: "pylib \<Rightarrow> pyval \<Rightarrow> pyval" where
  "Sensor_convert_parentid L v = (if v = PyNone then PyNone else PyStr (py_str L v))"

definition Sensor_fields :: "pylib \<Rightarrow> field list" where
  "Sensor_fields L =
     PRTGPriorityMixin_fields L @ PRTGStatusMixin_fields L @ PRTGObjectModel_fields L @
     [optional_str ''sensor'' None,
      optional_str ''device'' None,
      optional_str ''group'' None,
      optional_str ''probe'' None,
      optional_str ''parentid'' (Some (Sensor_convert_parentid L)),
      optional_str ''sensor_type'' None,
      optional_str ''interval'' None,
      optional_str ''lastvalue'' None,
      optional_str ''lastmessage'' None,
      optional_str ''downtime'' None,
      optional_str ''uptime'' None,
      optional_int ''downtime_seconds'',
      optional_int ''uptime_seconds'',
      optional_str ''downtime_percent'' None,
      optional_str ''uptime_percent'' None,
      optional_str ''lastup'' None,
      optional_str ''lastdown'' None,
      optional_str ''lastcheck'' None,
      optional_str ''icon'' None,
      optional_str ''schedule'' None,
      optional_str ''access_rights'' None,
      str_list ''dependencies'' None]"

definition Sensor :: "pylib \<Rightarrow> kwargs \<Rightarrow> exc + model_instance" where
  "Sensor L kw =
     (case validate_fields L True (Sensor_fields L) kw of
        None \<Rightarrow> Inl (validation_error ''Sensor'')
      | Some inst \<Rightarrow> Inr inst)"

subsection \<open>prtg/models/group.py\<close>

definition convert_to_string :: "pylib \<Rightarrow> pyval \<Rightarrow> pyval" where
  "convert_to_string L v = (if v = PyNone then PyStr [] else PyStr (py_str L v))"

definition strip_whitespace :: "pyval \<Rightarrow> pyval" where
  "strip_whitespace v = (case v of PyStr s \<Rightarrow> PyStr (strip s) | _ \<Rightarrow> v)"

definition Group_fields :: "pylib \<Rightarrow> field list" where
  "Group_fields L =
     [required_str ''objid'' (Some (convert_to_string L)),
      required_str ''name'' (Some strip_whitespace),
      default_str ''probe'' [] (Some strip_whitespace),
      default_str ''group'' [] (Some strip_whitespace),
      required_str ''parentid'' (Some (convert_to_string L)),
      optional_int ''objid_raw'',
      optional_str ''name_raw'' None,
      optional_str ''probe_raw'' None,
      optional_str ''group_raw'' None,
      optional_int ''parentid_raw'']"

definition Group :: "pylib \<Rightarrow> kwargs \<Rightarrow> exc + model_instance" where
  "Group L kw =
     (case validate_fields L True (Group_fields L) kw of
        None \<Rightarrow> Inl (validation_error ''Group'')
      | Some inst \<Rightarrow> Inr inst)"

subsection \<open>The list responses\<close>

text \<open>
  A list response: its own validated fields (\<open>prtg_version\<close>, \<open>treesize\<close>) and its
  items (\<open>devices\<close>, \<open>sensors\<close> or \<open>groups\<close>). An item must be a dict from which
  the item model can be built; a missing key gives the empty list.
\<close>

record list_response =
  lr_fields :: model_instance
  lr_items :: "model_instance list"

definition validate_models ::
  "(kwargs \<Rightarrow> exc + model_instance) \<Rightarrow> pyval \<Rightarrow> model_instance list option" where
  "validate_models model v =
     (case v of
        PyList vs \<Rightarrow>
          those (map (\<lambda>item. case item of
                               PyDict d \<Rightarrow> (case model (kwargs_of d) of
                                              Inr i \<Rightarrow> Some i
                                            | Inl _ \<Rightarrow> None)
                             | _ \<Rightarrow> None) vs)
      | _ \<Rightarrow> None)"

definition build_list_response ::
  "pylib \<Rightarrow> bool \<Rightarrow> field list \<Rightarrow> string \<Rightarrow> (kwargs \<Rightarrow> exc + model_instance) \<Rightarrow> string \<Rightarrow> kwargs
     \<Rightarrow> exc + list_response" where
  "build_list_response L sw fs key model name kw =
     (case validate_fields L sw fs kw of
        None \<Rightarrow> Inl (validation_error name)
      | Some m \<Rightarrow>
          (case kw key of
             None \<Rightarrow> Inr \<lparr>lr_fields = m, lr_items = []\<rparr>
           | Some v \<Rightarrow>
               (case validate_models model v of
                  None \<Rightarrow> Inl (validation_error name)
                | Some xs \<Rightarrow> Inr \<lparr>lr_fields = m, lr_items = xs\<rparr>)))"

definition DeviceListResponse :: "pylib \<Rightarrow> kwargs \<Rightarrow> exc + list_response" where
  "DeviceListResponse L kw =
     build_list_response L True PRTGListResponse_fields ''devices'' (Device L)
       ''DeviceListResponse'' kw"

definition SensorListResponse :: "pylib \<Rightarrow> kwargs \<Rightarrow> exc + list_response" where
  "SensorListResponse L kw =
     build_list_response L True PRTGListResponse_fields ''sensors'' (Sensor L)
       ''SensorListResponse'' kw"

definition GroupListResponse_fields :: "field list" where
  "GroupListResponse_fields =
     [\<lparr>fname = ''treesize'', falias = None, ftyp = TInt, fdefault = Some (PyInt 0),
       fbefore = None\<rparr>,
      \<lparr>fname = ''prtg_version'', falias = Some ''prtg-version'', ftyp = TOptStr,
       fdefault = Some PyNone, fbefore = None\<rparr>]"

definition GroupListResponse :: "pylib \<Rightarrow> kwargs \<Rightarrow> exc + list_response" where
  "GroupListResponse L kw =
     build_list_response L False GroupListResponse_fields ''groups'' (Group L)
       ''GroupListResponse'' kw"

section \<open>Lookups by id (prtg/client.py)\<close>

text \<open>\<open>",".join(columns)\<close>.\<close>

fun join :: "string \<Rightarrow> string list \<Rightarrow> string" where
  "join sep [] = []"
| "join sep [x] = x"
| "join sep (x # y # ys) = x @ sep @ join sep (y # ys)"

definition device_columns :: "string list" where
  "device_columns =
     [''objid'', ''name'', ''device'', ''host'', ''probe'', ''group'', ''parentid'', ''status'',
      ''status_raw'', ''message'', ''tags'', ''priority'', ''upsens'', ''downsens'', ''warnsens'',
      ''pausedsens'', ''unusualsens'']"

definition sensor_columns :: "string list" where
  "sensor_columns =
     [''objid'', ''name'', ''sensor'', ''device'', ''group'', ''probe'', ''parentid'', ''status'',
      ''status_raw'', ''message'', ''sensor_type'', ''interval'', ''lastvalue'', ''lastmessage'',
      ''downtime'', ''uptime'', ''priority'', ''tags'']"

definition group_columns :: "string list" where
  "group_columns = [''objid'', ''name'', ''probe'', ''group'', ''parentid'']"

text \<open>
  The body that \<open>get_device\<close>, \<open>get_sensor\<close> and \<open>get_group\<close> share: a
  \<open>table.json\<close> query filtered by \<open>filter_objid\<close>, the list response built from the
  decoded body (\<open>Model(**response_data)\<close> needs a mapping), \<open>PRTGNotFoundError\<close> for
  an empty list, else the first item.
\<close>

definition lookup_params :: "string \<Rightarrow> string list \<Rightarrow> string \<Rightarrow> (string \<rightharpoonup> pyval)" where
  "lookup_params content columns object_id =
     [''content'' \<mapsto> PyStr content, ''columns'' \<mapsto> PyStr (join '','' columns),
      ''filter_objid'' \<mapsto> PyStr object_id]"

fun type_name :: "pyval \<Rightarrow> string" where
  "type_name PyNone = ''NoneType''"
| "type_name (PyBool _) = ''bool''"
| "type_name (PyInt _) = ''int''"
| "type_name (PyFloat _) = ''float''"
| "type_name (PyStr _) = ''str''"
| "type_name (PyList _) = ''list''"
| "type_name (PyDict _) = ''dict''"

definition get_single ::
  "PRTGConfig \<Rightarrow> server \<Rightarrow> string \<Rightarrow> string list \<Rightarrow> (kwargs \<Rightarrow> exc + list_response) \<Rightarrow> string
     \<Rightarrow> string \<Rightarrow> string \<Rightarrow> http_request list \<Rightarrow> (exc + model_instance) \<times> http_request list" where
  "get_single cfg srv content columns list_model model_name not_found object_id log =
     (let (res, log') =
            request cfg srv ''table.json'' (Some (lookup_params content columns object_id)) ''GET'' log
      in (case res of
            Inl e \<Rightarrow> Inl e
          | Inr response_data \<Rightarrow>
              (case response_data of
                 PyDict d \<Rightarrow>
                   (case list_model (kwargs_of d) of
                      Inl e \<Rightarrow> Inl e
                    | Inr object_list \<Rightarrow>
                        (case lr_items object_list of
                           [] \<Rightarrow> Inl (PRTGNotFoundError, not_found @ object_id)
                         | x # _ \<Rightarrow> Inr x))
               | _ \<Rightarrow> Inl (TypeError, model_name @ ''() argument after ** must be a mapping, not ''
                                      @ type_name response_data)),
          log'))"

definition get_device ::
  "pylib \<Rightarrow> PRTGConfig \<Rightarrow> server \<Rightarrow> string list option \<Rightarrow> string \<Rightarrow> http_request list
     \<Rightarrow> (exc + model_instance) \<times> http_request list" where
  "get_device L cfg srv columns dev_id log =
     get_single cfg srv ''devices'' (case columns of None \<Rightarrow> device_columns | Some c \<Rightarrow> c)
       (DeviceListResponse L) ''prtg.models.device.DeviceListResponse'' ''Device not found: ''
       dev_id log"

definition get_sensor ::
  "pylib \<Rightarrow> PRTGConfig \<Rightarrow> server \<Rightarrow> string list option \<Rightarrow> string \<Rightarrow> http_request list
     \<Rightarrow> (exc + model_instance) \<times> http_request list" where
  "get_sensor L cfg srv columns sensor_id log =
     get_single cfg srv ''sensors'' (case columns of None \<Rightarrow> sensor_columns | Some c \<Rightarrow> c)
       (SensorListResponse L) ''prtg.models.sensor.SensorListResponse'' ''Sensor not found: ''
       sensor_id log"

definition get_group ::
  "pylib \<Rightarrow> PRTGConfig \<Rightarrow> server \<Rightarrow> string list option \<Rightarrow> string \<Rightarrow> http_request list
     \<Rightarrow> (exc + model_instance) \<times> http_request list" where
  "get_group L cfg srv columns group_id log =
     get_single cfg srv ''groups'' (case columns of None \<Rightarrow> group_columns | Some c \<Rightarrow> c)
       (GroupListResponse L) ''prtg.models.group.GroupListResponse'' ''Group not found: ''
       group_id log"

text \<open>
  The loop that \<open>get_devices_by_ids\<close>, \<open>get_sensors_by_ids\<close> and
  \<open>get_groups_by_ids\<close> share: each id is looked up in turn, \<open>except PRTGNotFoundError\<close>
  skips the id, any other exception leaves the loop.
\<close>

fun get_by_ids_loop ::
  "(string \<Rightarrow> http_request list \<Rightarrow> (exc + model_instance) \<times> http_request list)
     \<Rightarrow> model_instance list \<Rightarrow> string list \<Rightarrow> http_request list
     \<Rightarrow> (exc + model_instance list) \<times> http_request list" where
  "get_by_ids_loop get_one found [] log = (Inr found, log)"
| "get_by_ids_loop get_one found (i # ids) log =
     (case get_one i log of
        (Inr x, log') \<Rightarrow> get_by_ids_loop get_one (found @ [x]) ids log'
      | (Inl e, log') \<Rightarrow>
          if isinstance e PRTGNotFoundError then get_by_ids_loop get_one found ids log'
          else (Inl e, log'))"

definition get_devices_by_ids ::
  "pylib \<Rightarrow> PRTGConfig \<Rightarrow> server \<Rightarrow> string list \<Rightarrow> string list option \<Rightarrow> http_request list
     \<Rightarrow> (exc + model_instance list) \<times> http_request list" where
  "get_devices_by_ids L cfg srv device_ids columns log =
     get_by_ids_loop (get_device L cfg srv columns) [] device_ids log"

definition get_sensors_by_ids ::
  "pylib \<Rightarrow> PRTGConfig \<Rightarrow> server \<Rightarrow> string list \<Rightarrow> string list option \<Rightarrow> http_request list
     \<Rightarrow> (exc + model_instance list) \<times> http_request list" where
  "get_sensors_by_ids L cfg srv sensor_ids columns log =
     get_by_ids_loop (get_sensor L cfg srv columns) [] sensor_ids log"

definition get_groups_by_ids ::
  "pylib \<Rightarrow> PRTGConfig \<Rightarrow> server \<Rightarrow> string list \<Rightarrow> string list option \<Rightarrow> http_request list
     \<Rightarrow> (exc + model_instance list) \<times> http_request list" where
  "get_groups_by_ids L cfg srv group_ids columns log =
     get_by_ids_loop (get_group L cfg srv columns) [] group_ids log"

section \<open>The historic-data command (prtg/commands/sensor.py, prtg/cli.py)\<close>

text \<open>
  The options of the command group that \<open>Context.init_client\<close> reads from
  \<open>cli_options\<close>.
\<close>

record cli_options =
  opt_profile :: "string option"
  opt_url :: "string option"
  opt_api_token :: "string option"
  opt_no_verify_ssl :: bool
  opt_pretty :: bool

text \<open>
  What the command takes from the standard library and its surroundings. A naive
  \<open>datetime\<close> is the number of seconds since 0001-01-01 00:00:00 (the format
  \<open>%Y-%m-%d-%H-%M-%S\<close> has no finer unit); \<open>strptime\<close> gives \<open>None\<close> where Python
  raises \<open>ValueError\<close>. \<open>can_open_w\<close> tells whether \<open>open(path, "w")\<close> succeeds.
\<close>

record cmdlib =
  strptime :: "string \<Rightarrow> int option"
  strftime :: "int \<Rightarrow> string"
  now :: int
  json_dumps :: "pyval \<Rightarrow> int option \<Rightarrow> string"
  can_open_w :: "string \<Rightarrow> bool"

text \<open>
  How a run of the command ends: \<open>sys.exit(n)\<close>, the output echoed to stdout or saved
  to a file (exit status 0), or an exception that no handler of the command catches.
  Messages written to stderr are left out.
\<close>

datatype command_result = Exit int | Echoed string | Saved string string | Uncaught exc

text \<open>
  \<open>Context.init_client\<close>, on a context whose client is not yet set. Only \<open>ValueError\<close>
  is caught. The formatter name is restricted to \<open>json\<close> by the option's
  \<open>click.Choice\<close>, and that formatter is registered, so \<open>FormatterFactory.create\<close>
  does not raise.
\<close>

definition init_client :: "environ \<Rightarrow> ConfigParser \<Rightarrow> cli_options \<Rightarrow> command_result + PRTGConfig" where
  "init_client env parser opts =
     (case get_config env parser (opt_profile opts) (opt_url opts) (opt_api_token opts)
             (if opt_no_verify_ssl opts then Some False else None) of
        Inr config \<Rightarrow> Inr config
      | Inl e \<Rightarrow> if isinstance e ValueError then Inl (Exit 1) else Inl (Uncaught e))"

definition interval_map :: "string \<rightharpoonup> int" where
  "interval_map = [''raw'' \<mapsto> 0, ''1m'' \<mapsto> 60, ''1h'' \<mapsto> 3600, ''1d'' \<mapsto> 86400]"

text \<open>
  \<open>t - timedelta(seconds=secs)\<close>: \<open>OverflowError\<close> (here \<open>None\<close>) when the delta has
  more than 999999999 days or the result leaves the years 1 to 9999.
\<close>

definition minus_timedelta :: "int \<Rightarrow> int \<Rightarrow> int option" where
  "minus_timedelta t secs =
     (if \<bar>secs div 86400\<bar> > 999999999 then None
      else let r = t - secs in
           if 0 \<le> r \<and> r < 3652059 * 86400 then Some r else None)"

text \<open>
  The first part of the \<open>try\<close> block: \<open>sdate\<close> and \<open>edate\<close>, from the explicit dates
  if both are given (and non-empty), else from \<open>--days\<close>, \<open>--hours\<close> or the default
  of seven days before now.
\<close>

definition date_range ::
  "cmdlib \<Rightarrow> string option \<Rightarrow> string option \<Rightarrow> int option \<Rightarrow> int option
     \<Rightarrow> (string \<times> string) option" where
  "date_range L start_date end_date days hours =
     (if truthy start_date \<and> truthy end_date then Some (the start_date, the end_date)
      else
        let back = (if days \<noteq> None \<and> days \<noteq> Some 0 then the days * 86400
                    else if hours \<noteq> None \<and> hours \<noteq> Some 0 then the hours * 3600
                    else 7 * 86400)
        in case minus_timedelta (now L) back of
             None \<Rightarrow> None
           | Some start \<Rightarrow> Some (strftime L start, strftime L (now L)))"

text \<open>
  The validation of an explicit date range. \<open>(end_dt - start_dt).days\<close> is the number
  of whole days of the difference, rounded down. The result is the exit of the
  command, or \<open>None\<close> when the command goes on.
\<close>

definition delta_days :: "int \<Rightarrow> int \<Rightarrow> int" where
  "delta_days start_dt end_dt = (end_dt - start_dt) div 86400"

definition validate_date_range ::
  "cmdlib \<Rightarrow> string option \<Rightarrow> string option \<Rightarrow> int \<Rightarrow> command_result option" where
  "validate_date_range L start_date end_date avg_interval =
     (if truthy start_date \<and> truthy end_date
      then (case strptime L (the start_date) of
              None \<Rightarrow> Some (Exit 1)
            | Some start_dt \<Rightarrow>
                (case strptime L (the end_date) of
                   None \<Rightarrow> Some (Exit 1)
                 | Some end_dt \<Rightarrow>
                     if avg_interval = 0 \<and> delta_days start_dt end_dt > 40 then Some (Exit 5)
                     else if delta_days start_dt end_dt > 500 then Some (Exit 5)
                     else None))
      else None)"

text \<open>\<open>str.split(sep)\<close> for a one-character separator.\<close>

fun split_on :: "char \<Rightarrow> string \<Rightarrow> string list" where
  "split_on sep [] = [[]]"
| "split_on sep (c # cs) =
     (if c = sep then [] # split_on sep cs
      else (case split_on sep cs of
              w # ws \<Rightarrow> (c # w) # ws
            | [] \<Rightarrow> [[c]]))"

text \<open>The row limit for CSV shown on the terminal: the header and the last \<open>limit\<close> rows.\<close>

definition limit_rows :: "string \<Rightarrow> int \<Rightarrow> string" where
  "limit_rows output limit =
     (if limit > 0
      then let lines = split_on (CHR 0x0A) (strip output) in
           if length lines > 1
           then let header = hd lines; data_lines = tl lines in
                if int (length data_lines) > limit
                then join [CHR 0x0A] (header # drop (length data_lines - nat limit) data_lines)
                       @ [CHR 0x0A]
                else output
           else output
      else output)"

definition write_output ::
  "cmdlib \<Rightarrow> cli_options \<Rightarrow> string \<Rightarrow> string option \<Rightarrow> int option \<Rightarrow> pyval \<Rightarrow> command_result" where
  "write_output L opts output_format output_file head result =
     (let output =
            (if output_format = ''csv''
             then (case result of
                     PyStr s \<Rightarrow>
                       Some (if \<not> truthy output_file
                             then limit_rows s (case head of None \<Rightarrow> 50 | Some h \<Rightarrow> h)
                             else s)
                   | _ \<Rightarrow> None)
             else Some (json_dumps L result (if opt_pretty opts then Some 2 else None)))
      in case output of
           None \<Rightarrow> Exit 1
         | Some out \<Rightarrow>
             if truthy output_file
             then (if can_open_w L (the output_file) then Saved (the output_file) out else Exit 1)
             else Echoed out)"

text \<open>
  \<open>sensor_data\<close>. \<open>sys.exit\<close> raises \<open>SystemExit\<close>, which \<open>except Exception\<close> does not
  catch, so an exit inside the \<open>try\<close> block ends the command with that status. Every
  other exception inside the block ends it with status 4 (\<open>PRTGNotFoundError\<close>), 2
  (another \<open>PRTGClientError\<close>) or 1.
\<close>

definition sensor_data ::
  "cmdlib \<Rightarrow> environ \<Rightarrow> ConfigParser \<Rightarrow> cli_options \<Rightarrow> server \<Rightarrow> string \<Rightarrow> int option \<Rightarrow> int option
     \<Rightarrow> string option \<Rightarrow> string option \<Rightarrow> string \<Rightarrow> string \<Rightarrow> string option \<Rightarrow> int option
     \<Rightarrow> http_request list \<Rightarrow> command_result \<times> http_request list" where
  "sensor_data L env parser opts srv sensor_id days hours start_date end_date interval
       output_format output_file head log =
     (case init_client env parser opts of
        Inl r \<Rightarrow> (r, log)
      | Inr config \<Rightarrow>
          (case date_range L start_date end_date days hours of
             None \<Rightarrow> (Exit 1, log)
           | Some (sdate, edate) \<Rightarrow>
               (case interval_map (lower interval) of
                  None \<Rightarrow> (Exit 1, log)
                | Some avg_interval \<Rightarrow>
                    (case validate_date_range L start_date end_date avg_interval of
                       Some r \<Rightarrow> (r, log)
                     | None \<Rightarrow>
                         (case get_sensor_historicdata config srv sensor_id sdate edate
                                 avg_interval output_format log of
                            (Inl e, log') \<Rightarrow>
                              (if isinstance e PRTGNotFoundError then Exit 4
                               else if isinstance e PRTGClientError then Exit 2
                               else Exit 1, log')
                          | (Inr result, log') \<Rightarrow>
                              (write_output L opts output_format output_file head result,
                               log'))))))"

section \<open>The batch operations as readings to compare the loops with\<close>

subsection \<open>The batch lookup as the specification words it\<close>

text \<open>
  The request that the lookup of one id issues, and the specification's reading of a
  batch. \<open>out i\<close> is the outcome of the single lookup of the \<open>i\<close>-th id, made after the
  requests for the ids before it. If every outcome is a record or a
  \<open>PRTGNotFoundError\<close>, the batch returns the records in input order and has issued
  one request per id. Otherwise, at the first position \<open>k\<close> with another error, the
  batch raises that error and no request for a later id is issued.
\<close>

definition lookup_request :: "PRTGConfig \<Rightarrow> string \<Rightarrow> string list \<Rightarrow> string \<Rightarrow> http_request" where
  "lookup_request cfg content columns object_id =
     \<lparr>req_method = ''GET'', req_url = base_url cfg @ ''/'' @ ''table.json'',
      req_params = build_auth_params cfg ++ lookup_params content columns object_id,
      req_verify = verify_ssl cfg, req_timeout = 30\<rparr>"

definition found_or_missing :: "exc + model_instance \<Rightarrow> bool" where
  "found_or_missing r = (case r of Inr _ \<Rightarrow> True | Inl e \<Rightarrow> fst e = PRTGNotFoundError)"

definition get_many_spec ::
  "(string \<Rightarrow> http_request list \<Rightarrow> (exc + model_instance) \<times> http_request list)
     \<Rightarrow> (string \<Rightarrow> http_request) \<Rightarrow> string list \<Rightarrow> http_request list
     \<Rightarrow> (exc + model_instance list) \<times> http_request list \<Rightarrow> bool" where
  "get_many_spec get_one req ids log res =
     (let out = (\<lambda>i. fst (get_one (ids ! i) (log @ map req (take i ids)))) in
      if \<forall>i<length ids. found_or_missing (out i)
      then res = (Inr (concat (map (\<lambda>i. case out i of Inr x \<Rightarrow> [x] | Inl _ \<Rightarrow> [])
                                 [0..<length ids])),
                  log @ map req ids)
      else \<exists>k<length ids. (\<forall>i<k. found_or_missing (out i)) \<and> \<not> found_or_missing (out k) \<and>
             (\<exists>e. out k = Inl e \<and> res = (Inl e, log @ map req (take (Suc k) ids))))"

subsection \<open>The batch move, with the errors its loop does not catch\<close>

text \<open>
  A reading of \<open>move_devices\<close> to compare the loop with. \<open>out i\<close> is the outcome of the
  single move of the \<open>i\<close>-th id, made after the requests for the ids before it. A move
  is \<open>returned_or_caught\<close> if it returns, or raises an instance of \<open>PRTGClientError\<close>
  (what the \<open>except\<close> tuple of the loop catches). If every move is, the batch returns
  one record per id, in input order, and has issued one request per id. Otherwise, at
  the first position \<open>k\<close> whose move raises another error, the batch raises that error
  and no request for a later id is issued.
\<close>

definition returned_or_caught :: "exc + bool \<Rightarrow> bool" where
  "returned_or_caught r = (case r of Inr _ \<Rightarrow> True | Inl e \<Rightarrow> isinstance e PRTGClientError)"

definition move_many_spec ::
  "(string \<Rightarrow> http_request list \<Rightarrow> (exc + bool) \<times> http_request list)
     \<Rightarrow> (string \<Rightarrow> http_request) \<Rightarrow> string list \<Rightarrow> http_request list
     \<Rightarrow> (exc + move_result list) \<times> http_request list \<Rightarrow> bool" where
  "move_many_spec move_one req ids log res =
     (let out = (\<lambda>i. fst (move_one (ids ! i) (log @ map req (take i ids)))) in
      if \<forall>i<length ids. returned_or_caught (out i)
      then res = (Inr (map (\<lambda>i. case out i of
                                   Inr _ \<Rightarrow> \<lparr>device_id = ids ! i, success = True, error = None\<rparr>
                                 | Inl e \<Rightarrow> \<lparr>device_id = ids ! i, success = False,
                                              error = Some (snd e)\<rparr>)
                            [0..<length ids]),
                  log @ map req ids)
      else \<exists>k<length ids. (\<forall>i<k. returned_or_caught (out i)) \<and> \<not> returned_or_caught (out k) \<and>
             (\<exists>e. out k = Inl e \<and> res = (Inl e, log @ map req (take (Suc k) ids))))"

section \<open>Example inputs\<close>

abbreviation (input) cfg0 :: PRTGConfig where
  "cfg0 \<equiv> \<lparr>url = ''https://prtg.example.com'', api_token = ''TOKEN'', verify_ssl = True, profile = ''default''\<rparr>"

abbreviation (input) srv0 :: server where
  "srv0 \<equiv> (\<lambda>log req. if req_params req ''id'' = Some (PyStr ''B'')
                     then Response \<lparr>status_code = 404, resp_text = ''gone'', resp_json = Inl ''x''\<rparr>
                     else Response \<lparr>status_code = 200, resp_text = '' OK '', resp_json = Inl ''x''\<rparr>)"

abbreviation (input) srv1 :: server where
  "srv1 \<equiv> (\<lambda>log req. if req_params req ''id'' = Some (PyStr ''A'')
                     then Response \<lparr>status_code = 401, resp_text = ''denied'', resp_json = Inl ''x''\<rparr>
                     else Response \<lparr>status_code = 200, resp_text = ''OK'', resp_json = Inl ''x''\<rparr>)"

abbreviation (input) lib0 :: pylib where
  "lib0 \<equiv> \<lparr>py_str = (\<lambda>v. case v of PyStr s \<Rightarrow> s | PyInt i \<Rightarrow> str_int i | _ \<Rightarrow> []),
            pyd_int = (\<lambda>v. case v of PyInt i \<Rightarrow> Some i | _ \<Rightarrow> None),
            py_int = (\<lambda>s. None)\<rparr>"

abbreviation (input) srv2 :: server where
  "srv2 \<equiv> (\<lambda>log req.
      case req_params req ''filter_objid'' of
        Some (PyStr i) \<Rightarrow>
          if i = ''missing''
          then Response \<lparr>status_code = 404, resp_text = [], resp_json = Inl ''no JSON''\<rparr>
          else Response \<lparr>status_code = 200, resp_text = [],
                 resp_json = Inr (PyDict [(''groups'',
                   PyList [PyDict [(''objid'', PyStr i), (''name'', PyStr ''n''),
                                   (''parentid'', PyInt 1)]])])\<rparr>
      | _ \<Rightarrow> Raises (RequestException ''bad request''))"

text \<open>
  Two servers on which \<open>session.request\<close> raises an error that is not a
  \<open>requests\<close> exception: for the id \<open>B\<close> a \<open>UnicodeEncodeError\<close>, for the id \<open>A\<close> an
  \<open>OSError\<close>.
\<close>

abbreviation (input) srv3 :: server where
  "srv3 \<equiv> (\<lambda>log req. if req_params req ''id'' = Some (PyStr ''B'')
                     then RaisesOther (UnicodeEncodeError, ''surrogates not allowed'')
                     else Response \<lparr>status_code = 200, resp_text = ''OK'', resp_json = Inl ''x''\<rparr>)"

abbreviation (input) srv4 :: server where
  "srv4 \<equiv> (\<lambda>log req. if req_params req ''id'' = Some (PyStr ''A'')
                     then RaisesOther (OSError, ''Could not find a suitable TLS CA certificate bundle'')
                     else Response \<lparr>status_code = 200, resp_text = ''OK'', resp_json = Inl ''x''\<rparr>)"

text \<open>
  An environment with an empty \<open>PRTG_API_TOKEN\<close> and both of \<open>PRTG_API_TOKEN_RW\<close> and
  \<open>PRTG_API_TOKEN_RO\<close>, and a config file whose \<open>default\<close> section has an \<open>api_token\<close>.
\<close>

abbreviation (input) env0 :: "string \<rightharpoonup> string" where
  "env0 \<equiv> [''PRTG_URL'' \<mapsto> ''prtg.example.com/'', ''PRTG_API_TOKEN'' \<mapsto> [],
            ''PRTG_API_TOKEN_RW'' \<mapsto> ''rw'', ''PRTG_API_TOKEN_RO'' \<mapsto> ''ro'']"

abbreviation (input) parser0 :: ConfigParser where
  "parser0 \<equiv> \<lparr>has_section = (\<lambda>s. s = ''default''),
               get_fallback_None = (\<lambda>s k. if k = ''api_token'' then Inr (Some ''file'') else Inr None)\<rparr>"

text \<open>
  For the historic-data command: no options of the command group, a \<open>strptime\<close> that
  knows the two dates 2024-01-01 00:00:00 and 2024-02-10 00:00:01 (day 738886 and day
  738926 of the proleptic Gregorian calendar), and a server that answers every
  request with a one-line CSV body.
\<close>

abbreviation (input) opts0 :: cli_options where
  "opts0 \<equiv> \<lparr>opt_profile = None, opt_url = None, opt_api_token = None,
             opt_no_verify_ssl = False, opt_pretty = True\<rparr>"

abbreviation (input) cmdlib0 :: cmdlib where
  "cmdlib0 \<equiv> \<lparr>strptime = (\<lambda>s. if s = ''2024-01-01-00-00-00'' then Some (738885 * 86400)
                              else if s = ''2024-02-10-00-00-01'' then Some (738925 * 86400 + 1)
                              else None),
               strftime = (\<lambda>t. []),
               now = 739000 * 86400,
               json_dumps = (\<lambda>v i. []),
               can_open_w = (\<lambda>p. True)\<rparr>"

abbreviation (input) srv5 :: server where
  "srv5 \<equiv> (\<lambda>log req. Response \<lparr>status_code = 200, resp_text = ''t,v'', resp_json = Inl ''x''\<rparr>)"

section \<open>Properties of the configuration resolver\<close>

subsection \<open>Trailing slashes\<close>

lemma rstrip_aux:
  "\<exists>n. xs = replicate n CHR ''/'' @ dropWhile (\<lambda>c. c = CHR ''/'') xs"
proof (induction xs)
  case Nil show ?case by simp
next
  case (Cons a xs)
  show ?case
  proof (cases "a = CHR ''/''")
    case True
    from Cons obtain n where "xs = replicate n CHR ''/'' @ dropWhile (\<lambda>c. c = CHR ''/'') xs" by blast
    then have "a # xs = replicate (Suc n) CHR ''/'' @ dropWhile (\<lambda>c. c = CHR ''/'') (a # xs)"
      using True by simp
    then show ?thesis by blast
  next
    case False
    then have "a # xs = replicate 0 CHR ''/'' @ dropWhile (\<lambda>c. c = CHR ''/'') (a # xs)" by simp
    then show ?thesis by blast
  qed
qed

lemma rstrip_slash_decomp:
  "\<exists>n. s = rstrip_slash s @ replicate n CHR ''/''"
proof -
  obtain n where "rev s = replicate n CHR ''/'' @ dropWhile (\<lambda>c. c = CHR ''/'') (rev s)"
    using rstrip_aux by blast
  then have "rev (rev s) = rev (replicate n CHR ''/'' @ dropWhile (\<lambda>c. c = CHR ''/'') (rev s))"
    by simp
  then have "s = rstrip_slash s @ replicate n CHR ''/''"
    by (simp add: rstrip_slash_def)
  then show ?thesis by blast
qed

lemma dropWhile_hd: "dropWhile P xs = [] \<or> \<not> P (hd (dropWhile P xs))"
  by (induction xs) auto

lemma rstrip_slash_last:
  "rstrip_slash s = [] \<or> last (rstrip_slash s) \<noteq> CHR ''/''"
  using dropWhile_hd [of "\<lambda>c. c = CHR ''/''" "rev s"]
  by (auto simp: rstrip_slash_def last_rev)

text \<open>
  C5, as the code has it. For every configuration with a non-empty URL and token,
  \<open>__post_init__\<close> succeeds; the stored URL is built from \<open>r\<close>, the URL without
  \<^emph>\<open>all\<close> of its trailing slashes (\<open>r\<close> does not end in a slash), and
  \<open>https://\<close> is prepended if and only if \<open>r\<close> starts with neither
  \<open>http://\<close> nor \<open>https://\<close>.
\<close>

theorem post_init_strips_all_slashes:
  assumes "url c \<noteq> []" "api_token c \<noteq> []"
  shows "\<exists>r n. url c = r @ replicate n CHR ''/'' \<and> (r = [] \<or> last r \<noteq> CHR ''/'') \<and>
     PRTGConfig_post_init c =
       Inr (c\<lparr>url := if startswith r ''http://'' \<or> startswith r ''https://'' then r else ''https://'' @ r\<rparr>)"
proof -
  obtain n where n: "url c = rstrip_slash (url c) @ replicate n CHR ''/''"
    using rstrip_slash_decomp by blast
  have "PRTGConfig_post_init c =
       Inr (c\<lparr>url := if startswith (rstrip_slash (url c)) ''http://'' \<or> startswith (rstrip_slash (url c)) ''https://''
          then rstrip_slash (url c) else ''https://'' @ rstrip_slash (url c)\<rparr>)"
    using assms by (simp add: PRTGConfig_post_init_def Let_def)
  with n rstrip_slash_last show ?thesis by blast
qed

theorem post_init_strips_all_slashes_witness:
  "\<exists>r n. ''prtg.example.com//'' = r @ replicate n CHR ''/'' \<and> (r = [] \<or> last r \<noteq> CHR ''/'') \<and>
     PRTGConfig_post_init
       \<lparr>url = ''prtg.example.com//'', api_token = ''t'', verify_ssl = True, profile = ''default''\<rparr> =
       Inr \<lparr>url = (if startswith r ''http://'' \<or> startswith r ''https://'' then r else ''https://'' @ r),
            api_token = ''t'', verify_ssl = True, profile = ''default''\<rparr>"
  using post_init_strips_all_slashes
    [of "\<lparr>url = ''prtg.example.com//'', api_token = ''t'', verify_ssl = True, profile = ''default''\<rparr>"]
  by simp

text \<open>
  C5 as stated fails: on \<open>x.com//\<close> the code removes both slashes, where stripping
  exactly one would leave \<open>https://x.com/\<close>.
\<close>

theorem post_init_one_slash_counterexample:
  "PRTGConfig_post_init \<lparr>url = ''x.com//'', api_token = ''t'', verify_ssl = True, profile = ''default''\<rparr>
   = Inr \<lparr>url = ''https://x.com'', api_token = ''t'', verify_ssl = True, profile = ''default''\<rparr>
  \<and> spec_normalize_url ''x.com//'' = ''https://x.com/''"
  by (simp add: PRTGConfig_post_init_def rstrip_slash_def startswith_def spec_normalize_url_def
      spec_strip_one_slash_def)

subsection \<open>A URL of slashes only\<close>

text \<open>
  C6. \<open>__post_init__\<close> tests the URL for emptiness before it strips the trailing
  slashes, so the non-empty URL \<open>/\<close> passes the test \<open>PRTG URL is required\<close>, is
  stripped to the empty string and is stored as \<open>https://\<close>: a URL without a host that
  still ends in a slash, against the comment \<open>Ensure URL doesn't have trailing slash\<close>.
  Normalizing the stored URL once more gives \<open>https://https:\<close>, so on this input the
  normalization is not idempotent.
\<close>

theorem post_init_slashes_only_url:
  "PRTGConfig_post_init \<lparr>url = ''/'', api_token = ''t'', verify_ssl = True, profile = ''default''\<rparr>
   = Inr \<lparr>url = ''https://'', api_token = ''t'', verify_ssl = True, profile = ''default''\<rparr>
  \<and> PRTGConfig_post_init \<lparr>url = ''https://'', api_token = ''t'', verify_ssl = True, profile = ''default''\<rparr>
   = Inr \<lparr>url = ''https://https:'', api_token = ''t'', verify_ssl = True, profile = ''default''\<rparr>"
  by (simp add: PRTGConfig_post_init_def rstrip_slash_def startswith_def)

subsection \<open>Token precedence\<close>














section \<open>Properties of the client\<close>

subsection \<open>The move loop\<close>

lemma move_device_log:
  "snd (move_device cfg srv d tgt log) = log @ [move_request cfg d tgt]"
  by (simp add: move_device_def session_request_def Let_def split: transport_result.splits)

lemma except_tuple:
  "(isinstance e PRTGClientError \<or> isinstance e PRTGAPIError \<or> isinstance e PRTGNotFoundError)
     = isinstance e PRTGClientError"
  by (cases "fst e") (simp_all add: isinstance_def)

lemma move_step:
  "move_devices_loop cfg srv tgt acc (d # ds) log =
     (case fst (move_device cfg srv d tgt log) of
        Inr _ \<Rightarrow> move_devices_loop cfg srv tgt
                   (acc @ [\<lparr>device_id = d, success = True, error = None\<rparr>]) ds
                   (log @ [move_request cfg d tgt])
      | Inl e \<Rightarrow> if isinstance e PRTGClientError
                 then move_devices_loop cfg srv tgt
                        (acc @ [\<lparr>device_id = d, success = False, error = Some (snd e)\<rparr>]) ds
                        (log @ [move_request cfg d tgt])
                 else (Inl e, log @ [move_request cfg d tgt]))"
proof -
  obtain r l where rl: "move_device cfg srv d tgt log = (r, l)"
    by (cases "move_device cfg srv d tgt log")
  with move_device_log [of cfg srv d tgt log] have l: "l = log @ [move_request cfg d tgt]" by simp
  show ?thesis by (cases r) (simp_all add: rl l except_tuple)
qed

lemma move_all_caught:
  "(\<forall>i<length ids. returned_or_caught
        (fst (move_device cfg srv (ids ! i) tgt
                (log @ map (\<lambda>d. move_request cfg d tgt) (take i ids))))) \<Longrightarrow>
   \<exists>rs. move_devices_loop cfg srv tgt acc ids log
          = (Inr (acc @ rs), log @ map (\<lambda>d. move_request cfg d tgt) ids)
      \<and> length rs = length ids
      \<and> (\<forall>i<length ids.
            rs ! i =
              (case fst (move_device cfg srv (ids ! i) tgt
                           (log @ map (\<lambda>d. move_request cfg d tgt) (take i ids))) of
                 Inr _ \<Rightarrow> \<lparr>device_id = ids ! i, success = True, error = None\<rparr>
               | Inl e \<Rightarrow> \<lparr>device_id = ids ! i, success = False, error = Some (snd e)\<rparr>))"
proof (induction ids arbitrary: acc log)
  case Nil
  show ?case by simp
next
  case (Cons d ds)
  let ?req = "\<lambda>d. move_request cfg d tgt"
  let ?out = "fst (move_device cfg srv d tgt log)"
  let ?rec = "case ?out of
                 Inr _ \<Rightarrow> \<lparr>device_id = d, success = True, error = None\<rparr>
               | Inl e \<Rightarrow> \<lparr>device_id = d, success = False, error = Some (snd e)\<rparr>"
  have hd: "returned_or_caught ?out"
    using Cons.prems [rule_format, of 0] by simp
  have tl: "\<forall>i<length ds. returned_or_caught
        (fst (move_device cfg srv (ds ! i) tgt ((log @ [?req d]) @ map ?req (take i ds))))"
  proof (intro allI impI)
    fix i assume "i < length ds"
    then have "Suc i < length (d # ds)" by simp
    with Cons.prems have "returned_or_caught
        (fst (move_device cfg srv ((d # ds) ! Suc i) tgt (log @ map ?req (take (Suc i) (d # ds)))))"
      by blast
    then show "returned_or_caught
        (fst (move_device cfg srv (ds ! i) tgt ((log @ [?req d]) @ map ?req (take i ds))))"
      by simp
  qed
  have step: "move_devices_loop cfg srv tgt acc (d # ds) log
        = move_devices_loop cfg srv tgt (acc @ [?rec]) ds (log @ [?req d])"
  proof (cases ?out)
    case (Inl e)
    with hd have "isinstance e PRTGClientError" by (simp add: returned_or_caught_def)
    with Inl show ?thesis unfolding move_step by simp
  next
    case (Inr b)
    then show ?thesis unfolding move_step by simp
  qed
  from Cons.IH [OF tl, of "acc @ [?rec]"]
  obtain rs where rs: "move_devices_loop cfg srv tgt (acc @ [?rec]) ds (log @ [?req d])
          = (Inr ((acc @ [?rec]) @ rs), (log @ [?req d]) @ map ?req ds)"
      "length rs = length ds"
      "\<forall>i<length ds.
            rs ! i =
              (case fst (move_device cfg srv (ds ! i) tgt
                           ((log @ [?req d]) @ map ?req (take i ds))) of
                 Inr _ \<Rightarrow> \<lparr>device_id = ds ! i, success = True, error = None\<rparr>
               | Inl e \<Rightarrow> \<lparr>device_id = ds ! i, success = False, error = Some (snd e)\<rparr>)"
    by blast
  have a: "move_devices_loop cfg srv tgt acc (d # ds) log
          = (Inr (acc @ (?rec # rs)), log @ map ?req (d # ds))"
    using step rs(1) by simp
  have b: "length (?rec # rs) = length (d # ds)" using rs(2) by simp
  have c: "\<forall>i<length (d # ds).
            (?rec # rs) ! i =
              (case fst (move_device cfg srv ((d # ds) ! i) tgt
                           (log @ map ?req (take i (d # ds)))) of
                 Inr _ \<Rightarrow> \<lparr>device_id = (d # ds) ! i, success = True, error = None\<rparr>
               | Inl e \<Rightarrow> \<lparr>device_id = (d # ds) ! i, success = False, error = Some (snd e)\<rparr>)"
  proof (intro allI impI)
    fix i assume i: "i < length (d # ds)"
    show "(?rec # rs) ! i =
              (case fst (move_device cfg srv ((d # ds) ! i) tgt
                           (log @ map ?req (take i (d # ds)))) of
                 Inr _ \<Rightarrow> \<lparr>device_id = (d # ds) ! i, success = True, error = None\<rparr>
               | Inl e \<Rightarrow> \<lparr>device_id = (d # ds) ! i, success = False, error = Some (snd e)\<rparr>)"
    proof (cases i)
      case 0
      then show ?thesis by (simp split: sum.splits)
    next
      case (Suc j)
      with i have "j < length ds" by simp
      with rs(3) have "rs ! j =
              (case fst (move_device cfg srv (ds ! j) tgt
                           ((log @ [?req d]) @ map ?req (take j ds))) of
                 Inr _ \<Rightarrow> \<lparr>device_id = ds ! j, success = True, error = None\<rparr>
               | Inl e \<Rightarrow> \<lparr>device_id = ds ! j, success = False, error = Some (snd e)\<rparr>)"
        by blast
      with Suc show ?thesis by (simp split: sum.splits)
    qed
  qed
  from a b c show ?case by blast
qed

lemma move_abort:
  "k < length ids \<Longrightarrow>
   (\<forall>i<k. returned_or_caught
        (fst (move_device cfg srv (ids ! i) tgt
                (log @ map (\<lambda>d. move_request cfg d tgt) (take i ids))))) \<Longrightarrow>
   fst (move_device cfg srv (ids ! k) tgt
          (log @ map (\<lambda>d. move_request cfg d tgt) (take k ids))) = Inl e \<Longrightarrow>
   \<not> isinstance e PRTGClientError \<Longrightarrow>
   move_devices_loop cfg srv tgt acc ids log
     = (Inl e, log @ map (\<lambda>d. move_request cfg d tgt) (take (Suc k) ids))"
proof (induction ids arbitrary: acc log k)
  case Nil
  then show ?case by simp
next
  case (Cons d ds)
  let ?req = "\<lambda>d. move_request cfg d tgt"
  show ?case
  proof (cases k)
    case 0
    with Cons.prems(3) have "fst (move_device cfg srv d tgt log) = Inl e" by simp
    with Cons.prems(4) 0 show ?thesis unfolding move_step by simp
  next
    case (Suc j)
    with Cons.prems(1) have j: "j < length ds" by simp
    have pre: "\<forall>i<j. returned_or_caught
        (fst (move_device cfg srv (ds ! i) tgt ((log @ [?req d]) @ map ?req (take i ds))))"
    proof (intro allI impI)
      fix i assume "i < j"
      then have "Suc i < k" using Suc by simp
      with Cons.prems(2) have "returned_or_caught
        (fst (move_device cfg srv ((d # ds) ! Suc i) tgt (log @ map ?req (take (Suc i) (d # ds)))))"
        by blast
      then show "returned_or_caught
        (fst (move_device cfg srv (ds ! i) tgt ((log @ [?req d]) @ map ?req (take i ds))))"
        by simp
    qed
    have at: "fst (move_device cfg srv (ds ! j) tgt ((log @ [?req d]) @ map ?req (take j ds))) = Inl e"
      using Cons.prems(3) Suc by simp
    have ih: "\<And>acc. move_devices_loop cfg srv tgt acc ds (log @ [?req d]) =
         (Inl e, (log @ [?req d]) @ map ?req (take (Suc j) ds))"
      using Cons.IH [OF j pre at Cons.prems(4)] .
    have "0 < k" using Suc by simp
    with Cons.prems(2) have "returned_or_caught
        (fst (move_device cfg srv ((d # ds) ! 0) tgt (log @ map ?req (take 0 (d # ds)))))"
      by blast
    then have hd: "returned_or_caught (fst (move_device cfg srv d tgt log))" by simp
    have fin: "(log @ [?req d]) @ map ?req (take (Suc j) ds) = log @ map ?req (take (Suc k) (d # ds))"
      using Suc by simp
    show ?thesis
    proof (cases "fst (move_device cfg srv d tgt log)")
      case (Inr x)
      then have "move_devices_loop cfg srv tgt acc (d # ds) log =
          move_devices_loop cfg srv tgt (acc @ [\<lparr>device_id = d, success = True, error = None\<rparr>])
            ds (log @ [?req d])"
        unfolding move_step by simp
      then show ?thesis unfolding ih fin .
    next
      case (Inl e')
      with hd have "isinstance e' PRTGClientError" by (simp add: returned_or_caught_def)
      with Inl have "move_devices_loop cfg srv tgt acc (d # ds) log =
          move_devices_loop cfg srv tgt
            (acc @ [\<lparr>device_id = d, success = False, error = Some (snd e')\<rparr>]) ds (log @ [?req d])"
        unfolding move_step by simp
      then show ?thesis unfolding ih fin .
    qed
  qed
qed

lemma least_uncaught:
  fixes P :: "nat \<Rightarrow> bool"
  assumes "\<not> (\<forall>i<n. P i)"
  shows "\<exists>k<n. (\<forall>i<k. P i) \<and> \<not> P k"
proof -
  from assms have ex: "\<exists>k. k < n \<and> \<not> P k" by blast
  define k where "k = (LEAST k. k < n \<and> \<not> P k)"
  have k: "k < n \<and> \<not> P k" unfolding k_def using ex by (rule LeastI_ex)
  have "\<forall>i<k. P i"
  proof (intro allI impI)
    fix i assume ik: "i < k"
    show "P i"
    proof (rule ccontr)
      assume "\<not> P i"
      with ik k have "i < n \<and> \<not> P i" by simp
      then have "k \<le> i" unfolding k_def by (rule Least_le)
      with ik show False by simp
    qed
  qed
  with k show ?thesis by blast
qed

lemma move_loop_spec:
  "move_many_spec (\<lambda>d. move_device cfg srv d tgt) (\<lambda>d. move_request cfg d tgt) ids log
     (move_devices_loop cfg srv tgt [] ids log)"
proof -
  let ?req = "\<lambda>d. move_request cfg d tgt"
  let ?out = "\<lambda>i. fst (move_device cfg srv (ids ! i) tgt (log @ map ?req (take i ids)))"
  let ?rec = "\<lambda>i. case ?out i of
                   Inr _ \<Rightarrow> \<lparr>device_id = ids ! i, success = True, error = None\<rparr>
                 | Inl e \<Rightarrow> \<lparr>device_id = ids ! i, success = False, error = Some (snd e)\<rparr>"
  show ?thesis
  proof (cases "\<forall>i<length ids. returned_or_caught (?out i)")
    case True
    from move_all_caught [OF True, of "[]"]
    obtain rs where rs: "move_devices_loop cfg srv tgt [] ids log = (Inr rs, log @ map ?req ids)"
      "length rs = length ids" "\<forall>i<length ids. rs ! i = ?rec i"
      by auto
    have "rs = map ?rec [0..<length ids]"
    proof (rule nth_equalityI)
      show "length rs = length (map ?rec [0..<length ids])" using rs(2) by simp
    next
      fix i assume "i < length rs"
      then have i: "i < length ids" using rs(2) by simp
      with rs(3) have "rs ! i = ?rec i" by blast
      with i show "rs ! i = map ?rec [0..<length ids] ! i" by (simp split: sum.splits)
    qed
    with rs(1) have "move_devices_loop cfg srv tgt [] ids log
        = (Inr (map ?rec [0..<length ids]), log @ map ?req ids)" by simp
    with True show ?thesis unfolding move_many_spec_def Let_def by simp
  next
    case False
    from least_uncaught [OF False]
    obtain k where k: "k < length ids" "\<forall>i<k. returned_or_caught (?out i)"
        "\<not> returned_or_caught (?out k)" by blast
    from k(3) obtain e where e: "?out k = Inl e" "\<not> isinstance e PRTGClientError"
      by (cases "?out k") (auto simp: returned_or_caught_def)
    have res: "move_devices_loop cfg srv tgt [] ids log = (Inl e, log @ map ?req (take (Suc k) ids))"
      using k(1) k(2) e(1) e(2) by (rule move_abort)
    have c: "(\<forall>i<length ids. returned_or_caught (?out i)) = False" using False by simp
    have "\<exists>k<length ids. (\<forall>i<k. returned_or_caught (?out i)) \<and> \<not> returned_or_caught (?out k) \<and>
             (\<exists>e. ?out k = Inl e \<and>
                  move_devices_loop cfg srv tgt [] ids log = (Inl e, log @ map ?req (take (Suc k) ids)))"
      using k e(1) res by blast
    then show ?thesis unfolding move_many_spec_def Let_def c if_False .
  qed
qed

subsection \<open>The success test of a move\<close>

lemma lower_char_eq_lower:
  assumes "97 \<le> (of_char t :: nat)" "(of_char t :: nat) \<le> 122"
    and u: "(of_char u :: nat) + 32 = of_char t"
  shows "lower_char c = t \<longleftrightarrow> c = t \<or> c = u"
proof -
  let ?n = "of_char c :: nat"
  let ?m = "of_char t :: nat"
  have cu: "c = u \<longleftrightarrow> ?n + 32 = ?m"
  proof
    assume "c = u" with u show "?n + 32 = ?m" by simp
  next
    assume "?n + 32 = ?m"
    with u have "(of_char c :: nat) = of_char u" by linarith
    then show "c = u" by (simp only: of_char_eq_iff)
  qed
  show ?thesis
  proof (cases "(65 \<le> ?n \<and> ?n \<le> 90) \<or> (192 \<le> ?n \<and> ?n \<le> 222 \<and> ?n \<noteq> 215)")
    case True
    then have lc: "lower_char c = char_of (?n + 32)" by (simp add: lower_char_def Let_def)
    have ne: "c \<noteq> t" using True assms by auto
    have "char_of (?n + 32) = t \<longleftrightarrow> ?n + 32 = ?m"
    proof
      assume "char_of (?n + 32) = t"
      then have "(of_char (char_of (?n + 32) :: char) :: nat) = ?m" by simp
      moreover have "?n + 32 < 256" using True by auto
      ultimately show "?n + 32 = ?m" by simp
    next
      assume "?n + 32 = ?m"
      then show "char_of (?n + 32) = t" by simp
    qed
    then show ?thesis using lc ne cu by simp
  next
    case False
    then have lc: "lower_char c = c" by (auto simp: lower_char_def Let_def)
    have "c \<noteq> u"
    proof
      assume "c = u"
      with cu have "?n + 32 = ?m" by simp
      with assms(1,2) have "65 \<le> ?n \<and> ?n \<le> 90" by linarith
      with False show False by simp
    qed
    with lc show ?thesis by simp
  qed
qed

lemma lower_char_o: "lower_char c = CHR ''o'' \<longleftrightarrow> c = CHR ''o'' \<or> c = CHR ''O''"
  by (rule lower_char_eq_lower) simp_all

lemma lower_char_k: "lower_char c = CHR ''k'' \<longleftrightarrow> c = CHR ''k'' \<or> c = CHR ''K''"
  by (rule lower_char_eq_lower) simp_all

lemma isspace_not_ok:
  "py_isspace c \<Longrightarrow> c \<noteq> CHR ''o'' \<and> c \<noteq> CHR ''O'' \<and> c \<noteq> CHR ''k'' \<and> c \<noteq> CHR ''K''"
  by (auto simp: py_isspace_def Let_def)

lemma py_in_ok_lower_Cons:
  "py_in ''ok'' (lower (c # cs)) \<longleftrightarrow>
     ((c = CHR ''o'' \<or> c = CHR ''O'') \<and> cs \<noteq> [] \<and> (hd cs = CHR ''k'' \<or> hd cs = CHR ''K''))
     \<or> py_in ''ok'' (lower cs)"
  by (cases cs) (auto simp: lower_def startswith_def lower_char_o lower_char_k)

lemma py_in_ok_lower_Nil: "\<not> py_in ''ok'' (lower [])"
  by (simp add: lower_def)

lemma py_in_ok_lower_iff:
  "py_in ''ok'' (lower s) \<longleftrightarrow>
     (\<exists>i. Suc i < length s \<and> (s ! i = CHR ''o'' \<or> s ! i = CHR ''O'')
          \<and> (s ! Suc i = CHR ''k'' \<or> s ! Suc i = CHR ''K''))"
proof (induction s)
  case Nil
  show ?case using py_in_ok_lower_Nil by simp
next
  case (Cons c cs)
  let ?P = "\<lambda>s i. Suc i < length s \<and> (s ! i = CHR ''o'' \<or> s ! i = CHR ''O'')
          \<and> (s ! Suc i = CHR ''k'' \<or> s ! Suc i = CHR ''K'')"
  have "(\<exists>i. ?P (c # cs) i) \<longleftrightarrow> ?P (c # cs) 0 \<or> (\<exists>j. ?P (c # cs) (Suc j))"
    by (metis not0_implies_Suc)
  moreover have "?P (c # cs) 0 \<longleftrightarrow>
     ((c = CHR ''o'' \<or> c = CHR ''O'') \<and> cs \<noteq> [] \<and> (hd cs = CHR ''k'' \<or> hd cs = CHR ''K''))"
    by (cases cs) auto
  moreover have "\<And>j. ?P (c # cs) (Suc j) \<longleftrightarrow> ?P cs j" by simp
  ultimately show ?case
    unfolding py_in_ok_lower_Cons Cons.IH by simp
qed

lemma ok_dropWhile:
  "py_in ''ok'' (lower (dropWhile py_isspace s)) = py_in ''ok'' (lower s)"
proof (induction s)
  case Nil show ?case by simp
next
  case (Cons c cs)
  show ?case
  proof (cases "py_isspace c")
    case True
    then have "py_in ''ok'' (lower (c # cs)) = py_in ''ok'' (lower cs)"
      unfolding py_in_ok_lower_Cons using isspace_not_ok [of c] by simp
    with True Cons show ?thesis by simp
  next
    case False then show ?thesis by simp
  qed
qed

lemma ok_snoc_space:
  "py_isspace c \<Longrightarrow> py_in ''ok'' (lower (s @ [c])) = py_in ''ok'' (lower s)"
proof (induction s)
  case Nil
  then show ?case unfolding append_Nil py_in_ok_lower_Cons using py_in_ok_lower_Nil by simp
next
  case (Cons a s)
  have "((a # s) @ [c]) = a # (s @ [c])" by simp
  show ?case
  proof (cases s)
    case Nil
    with Cons.prems show ?thesis
      using isspace_not_ok [of c] py_in_ok_lower_Nil
      by (simp add: py_in_ok_lower_Cons)
  next
    case (Cons b s')
    with Cons.IH Cons.prems show ?thesis
      by (simp add: py_in_ok_lower_Cons)
  qed
qed

lemma ok_rstrip:
  "py_in ''ok'' (lower (rev (dropWhile py_isspace (rev s)))) = py_in ''ok'' (lower s)"
proof (induction s rule: rev_induct)
  case Nil show ?case by simp
next
  case (snoc c s)
  show ?case
  proof (cases "py_isspace c")
    case True
    with snoc ok_snoc_space [OF True, of s] show ?thesis by simp
  next
    case False then show ?thesis by simp
  qed
qed

lemma ok_strip: "py_in ''ok'' (lower (strip s)) = py_in ''ok'' (lower s)"
  by (simp add: strip_def ok_rstrip ok_dropWhile)

text \<open>
  C8. When the move request is answered by a response with a status below 400,
  \<open>move_device\<close> returns \<open>True\<close> if the response text has an \<open>o\<close> or \<open>O\<close>
  directly followed by a \<open>k\<close> or \<open>K\<close>, and otherwise raises \<open>PRTGAPIError\<close> with
  the message \<open>Unexpected response from move operation: ...\<close>.
\<close>

theorem move_device_ok_iff:
  assumes "srv log (move_request cfg d tgt) = Response r" "status_code r < 400"
  shows "fst (move_device cfg srv d tgt log) =
      (if \<exists>i. Suc i < length (resp_text r)
              \<and> (resp_text r ! i = CHR ''o'' \<or> resp_text r ! i = CHR ''O'')
              \<and> (resp_text r ! Suc i = CHR ''k'' \<or> resp_text r ! Suc i = CHR ''K'')
       then Inr True
       else Inl (PRTGAPIError, ''Unexpected response from move operation: '' @ resp_text r))"
proof -
  have k: "py_in ''ok'' (lower (strip (resp_text r))) =
      (\<exists>i. Suc i < length (resp_text r)
              \<and> (resp_text r ! i = CHR ''o'' \<or> resp_text r ! i = CHR ''O'')
              \<and> (resp_text r ! Suc i = CHR ''k'' \<or> resp_text r ! Suc i = CHR ''K''))"
    unfolding ok_strip by (rule py_in_ok_lower_iff)
  show ?thesis
    using assms by (simp add: move_device_def session_request_def Let_def k)
qed

subsection \<open>Batches and request parameters\<close>

text \<open>
  C3, as the code has it. The outcome of the move at position \<open>i\<close> is that of
  \<open>move_device\<close> after the requests for the ids before it. If every move returns or
  raises an instance of \<open>PRTGClientError\<close>, \<open>move_devices\<close> returns one record per
  input id, in input order, a failed move giving \<open>success = False\<close> with the error
  text and a successful one \<open>success = True\<close> with no error, and one move request per
  id has been issued. Otherwise, at the first position whose move raises an error of
  another class, \<open>move_devices\<close> raises that error: there is no result list, and no
  move is attempted for the ids after it.
\<close>

theorem move_devices_one_record_per_id:
  "move_many_spec (\<lambda>d. move_device cfg srv d tgt) (\<lambda>d. move_request cfg d tgt) ids log
     (move_devices cfg srv ids tgt log)"
  unfolding move_devices_def by (rule move_loop_spec)

text \<open>The batch \<open>[A, B, C]\<close> where the move of \<open>B\<close> fails with a 404.\<close>

theorem move_devices_one_record_per_id_witness:
  "move_many_spec (\<lambda>d. move_device cfg0 srv0 d ''5666'') (\<lambda>d. move_request cfg0 d ''5666'')
     [''A'', ''B'', ''C''] [] (move_devices cfg0 srv0 [''A'', ''B'', ''C''] ''5666'' [])
   \<and> fst (move_devices cfg0 srv0 [''A'', ''B'', ''C''] ''5666'' [])
     = Inr [\<lparr>device_id = ''A'', success = True, error = None\<rparr>,
            \<lparr>device_id = ''B'', success = False,
             error = Some ''Device or target group not found: B -> 5666''\<rparr>,
            \<lparr>device_id = ''C'', success = True, error = None\<rparr>]"
proof
  show "move_many_spec (\<lambda>d. move_device cfg0 srv0 d ''5666'') (\<lambda>d. move_request cfg0 d ''5666'')
     [''A'', ''B'', ''C''] [] (move_devices cfg0 srv0 [''A'', ''B'', ''C''] ''5666'' [])"
    using move_devices_one_record_per_id [of cfg0 srv0 "''5666''" "[''A'', ''B'', ''C'']" "[]"] by simp
next
  show "fst (move_devices cfg0 srv0 [''A'', ''B'', ''C''] ''5666'' [])
     = Inr [\<lparr>device_id = ''A'', success = True, error = None\<rparr>,
            \<lparr>device_id = ''B'', success = False,
             error = Some ''Device or target group not found: B -> 5666''\<rparr>,
            \<lparr>device_id = ''C'', success = True, error = None\<rparr>]"
    by code_simp
qed

text \<open>
  C3 as stated fails: in the batch \<open>[A, B, C]\<close> where the request for \<open>B\<close> raises
  \<open>UnicodeEncodeError\<close> (not a \<open>requests\<close> exception, so \<open>move_device\<close> does not wrap
  it), \<open>move_devices\<close> raises that error after two requests: no record is returned
  and the move of \<open>C\<close> is never attempted.
\<close>

theorem move_devices_foreign_error_counterexample:
  "fst (move_devices cfg0 srv3 [''A'', ''B'', ''C''] ''5666'' [])
     = Inl (UnicodeEncodeError, ''surrogates not allowed'')
   \<and> length (snd (move_devices cfg0 srv3 [''A'', ''B'', ''C''] ''5666'' [])) = 2"
  by code_simp

lemma move_device_401:
  "srv log (move_request cfg d tgt) = Response r \<Longrightarrow> status_code r = 401 \<Longrightarrow>
   fst (move_device cfg srv d tgt log)
     = Inl (PRTGAuthenticationError, ''Authentication failed. Check API token.'')"
  by (simp add: move_device_def session_request_def)

lemma prefix_take_le: "a \<le> b \<Longrightarrow> prefix (take a xs) (take b xs)"
proof -
  assume "a \<le> b"
  then have "take a xs = take a (take b xs)" by (simp add: min_def)
  then show ?thesis by (metis take_is_prefix)
qed

text \<open>
  C9, as the code has it. An error that \<open>move_devices\<close> raises is never an instance of
  \<open>PRTGClientError\<close>. If every move of the batch returns or raises an instance of
  \<open>PRTGClientError\<close>, \<open>move_devices\<close> returns a list of the length of the input, and
  every error raised at a position has become the failure record of that position.
  After a move that raised an instance of \<open>PRTGClientError\<close> the batch continues: the
  request for the next id is issued. A 401 response makes \<open>move_device\<close> raise
  \<open>PRTGAuthenticationError\<close>, which is an instance of \<open>PRTGClientError\<close>.
\<close>

theorem move_devices_no_client_error_escapes:
  "(\<forall>e. fst (move_devices cfg srv ids tgt log) = Inl e \<longrightarrow> \<not> isinstance e PRTGClientError)
   \<and> ((\<forall>i<length ids. returned_or_caught
           (fst (move_device cfg srv (ids ! i) tgt
                   (log @ map (\<lambda>d. move_request cfg d tgt) (take i ids)))))
        \<longrightarrow> (\<exists>rs. fst (move_devices cfg srv ids tgt log) = Inr rs \<and> length rs = length ids
               \<and> (\<forall>i<length ids. \<forall>e.
                     fst (move_device cfg srv (ids ! i) tgt
                            (log @ map (\<lambda>d. move_request cfg d tgt) (take i ids))) = Inl e
                     \<longrightarrow> rs ! i = \<lparr>device_id = ids ! i, success = False, error = Some (snd e)\<rparr>)))
   \<and> (\<forall>k e. Suc k < length ids
           \<and> (\<forall>i<k. returned_or_caught
                  (fst (move_device cfg srv (ids ! i) tgt
                          (log @ map (\<lambda>d. move_request cfg d tgt) (take i ids)))))
           \<and> fst (move_device cfg srv (ids ! k) tgt
                    (log @ map (\<lambda>d. move_request cfg d tgt) (take k ids))) = Inl e
           \<and> isinstance e PRTGClientError
        \<longrightarrow> prefix (log @ map (\<lambda>d. move_request cfg d tgt) (take (Suc (Suc k)) ids))
                   (snd (move_devices cfg srv ids tgt log)))
   \<and> (\<forall>k r. srv (log @ map (\<lambda>d. move_request cfg d tgt) (take k ids))
               (move_request cfg (ids ! k) tgt) = Response r \<and> status_code r = 401
        \<longrightarrow> fst (move_device cfg srv (ids ! k) tgt
                    (log @ map (\<lambda>d. move_request cfg d tgt) (take k ids)))
              = Inl (PRTGAuthenticationError, ''Authentication failed. Check API token.'')
            \<and> isinstance (PRTGAuthenticationError, ''Authentication failed. Check API token.'')
                 PRTGClientError)"
proof -
  let ?req = "\<lambda>d. move_request cfg d tgt"
  let ?out = "\<lambda>i. fst (move_device cfg srv (ids ! i) tgt (log @ map ?req (take i ids)))"
  let ?all = "\<forall>i<length ids. returned_or_caught (?out i)"
  have caught: "?all \<Longrightarrow> \<exists>rs. move_devices cfg srv ids tgt log = (Inr rs, log @ map ?req ids)
         \<and> length rs = length ids
         \<and> (\<forall>i<length ids. \<forall>e. ?out i = Inl e
               \<longrightarrow> rs ! i = \<lparr>device_id = ids ! i, success = False, error = Some (snd e)\<rparr>)"
  proof -
    assume a: ?all
    from move_all_caught [OF a, of "[]"]
    obtain rs where rs: "move_devices_loop cfg srv tgt [] ids log = (Inr rs, log @ map ?req ids)"
      "length rs = length ids"
      "\<forall>i<length ids. rs ! i =
          (case ?out i of
             Inr _ \<Rightarrow> \<lparr>device_id = ids ! i, success = True, error = None\<rparr>
           | Inl e \<Rightarrow> \<lparr>device_id = ids ! i, success = False, error = Some (snd e)\<rparr>)"
      by auto
    have "\<forall>i<length ids. \<forall>e. ?out i = Inl e
               \<longrightarrow> rs ! i = \<lparr>device_id = ids ! i, success = False, error = Some (snd e)\<rparr>"
      using rs(3) by auto
    with rs(1) rs(2) show ?thesis unfolding move_devices_def by blast
  qed
  have aborted: "\<not> ?all \<Longrightarrow> \<exists>k<length ids. \<exists>e. (\<forall>i<k. returned_or_caught (?out i))
         \<and> ?out k = Inl e \<and> \<not> isinstance e PRTGClientError
         \<and> move_devices cfg srv ids tgt log = (Inl e, log @ map ?req (take (Suc k) ids))"
  proof -
    assume n: "\<not> ?all"
    from least_uncaught [OF n]
    obtain k where k: "k < length ids" "\<forall>i<k. returned_or_caught (?out i)"
        "\<not> returned_or_caught (?out k)" by blast
    from k(3) obtain e where e: "?out k = Inl e" "\<not> isinstance e PRTGClientError"
      by (cases "?out k") (auto simp: returned_or_caught_def)
    have "move_devices_loop cfg srv tgt [] ids log = (Inl e, log @ map ?req (take (Suc k) ids))"
      using k(1) k(2) e(1) e(2) by (rule move_abort)
    with k e show ?thesis unfolding move_devices_def by blast
  qed
  have p1: "\<forall>e. fst (move_devices cfg srv ids tgt log) = Inl e \<longrightarrow> \<not> isinstance e PRTGClientError"
  proof (cases ?all)
    case True
    from caught [OF True] show ?thesis by auto
  next
    case False
    from aborted [OF False] show ?thesis by auto
  qed
  have p2: "?all \<longrightarrow> (\<exists>rs. fst (move_devices cfg srv ids tgt log) = Inr rs \<and> length rs = length ids
               \<and> (\<forall>i<length ids. \<forall>e. ?out i = Inl e
                     \<longrightarrow> rs ! i = \<lparr>device_id = ids ! i, success = False, error = Some (snd e)\<rparr>))"
  proof
    assume a: ?all
    from caught [OF a] obtain rs where
      "move_devices cfg srv ids tgt log = (Inr rs, log @ map ?req ids)"
      "length rs = length ids"
      "\<forall>i<length ids. \<forall>e. ?out i = Inl e
          \<longrightarrow> rs ! i = \<lparr>device_id = ids ! i, success = False, error = Some (snd e)\<rparr>"
      by blast
    then show "\<exists>rs. fst (move_devices cfg srv ids tgt log) = Inr rs \<and> length rs = length ids
               \<and> (\<forall>i<length ids. \<forall>e. ?out i = Inl e
                     \<longrightarrow> rs ! i = \<lparr>device_id = ids ! i, success = False, error = Some (snd e)\<rparr>)"
      by (intro exI [of _ rs]) simp
  qed
  have p3: "\<forall>k e. Suc k < length ids \<and> (\<forall>i<k. returned_or_caught (?out i))
           \<and> ?out k = Inl e \<and> isinstance e PRTGClientError
        \<longrightarrow> prefix (log @ map ?req (take (Suc (Suc k)) ids)) (snd (move_devices cfg srv ids tgt log))"
  proof (intro allI impI)
    fix k e
    assume h: "Suc k < length ids \<and> (\<forall>i<k. returned_or_caught (?out i))
           \<and> ?out k = Inl e \<and> isinstance e PRTGClientError"
    then have rk: "returned_or_caught (?out k)" by (simp add: returned_or_caught_def)
    have "\<exists>n. Suc (Suc k) \<le> n \<and> snd (move_devices cfg srv ids tgt log) = log @ map ?req (take n ids)"
    proof (cases ?all)
      case True
      from caught [OF True] have "snd (move_devices cfg srv ids tgt log) = log @ map ?req ids"
        by auto
      then have "snd (move_devices cfg srv ids tgt log) = log @ map ?req (take (length ids) ids)"
        by simp
      moreover have "Suc (Suc k) \<le> length ids" using h by simp
      ultimately show ?thesis by blast
    next
      case False
      from aborted [OF False] obtain k' e' where k': "k' < length ids"
          "\<not> isinstance e' PRTGClientError" "?out k' = Inl e'"
          "move_devices cfg srv ids tgt log = (Inl e', log @ map ?req (take (Suc k') ids))"
        by blast
      from k'(2) k'(3) have nk: "\<not> returned_or_caught (?out k')"
        by (simp add: returned_or_caught_def)
      have "k < k'"
      proof (rule ccontr)
        assume "\<not> k < k'"
        then have "k' < k \<or> k' = k" by auto
        then show False
        proof
          assume "k' < k"
          with h have "returned_or_caught (?out k')" by blast
          with nk show False by simp
        next
          assume "k' = k"
          with rk nk show False by simp
        qed
      qed
      then have "Suc (Suc k) \<le> Suc k'" by simp
      moreover from k'(4) have "snd (move_devices cfg srv ids tgt log) = log @ map ?req (take (Suc k') ids)"
        by simp
      ultimately show ?thesis by blast
    qed
    then obtain n where n: "Suc (Suc k) \<le> n"
        "snd (move_devices cfg srv ids tgt log) = log @ map ?req (take n ids)" by blast
    from n(1) have "prefix (take (Suc (Suc k)) ids) (take n ids)" by (rule prefix_take_le)
    then have "prefix (log @ map ?req (take (Suc (Suc k)) ids)) (log @ map ?req (take n ids))"
      by (simp add: map_mono_prefix)
    with n(2) show "prefix (log @ map ?req (take (Suc (Suc k)) ids))
                      (snd (move_devices cfg srv ids tgt log))" by simp
  qed
  have p4: "\<forall>k r. srv (log @ map ?req (take k ids)) (move_request cfg (ids ! k) tgt) = Response r
              \<and> status_code r = 401
        \<longrightarrow> ?out k = Inl (PRTGAuthenticationError, ''Authentication failed. Check API token.'')
            \<and> isinstance (PRTGAuthenticationError, ''Authentication failed. Check API token.'')
                 PRTGClientError"
    using move_device_401 by (simp add: isinstance_def)
  from p1 p2 p3 p4 show ?thesis by blast
qed

text \<open>
  The batch \<open>[A, B]\<close> where the move of \<open>A\<close> is answered with 401, and the batch
  \<open>[B]\<close> whose only request raises \<open>UnicodeEncodeError\<close>.
\<close>

theorem move_devices_no_client_error_escapes_witness:
  "(\<exists>rs. fst (move_devices cfg0 srv1 [''A'', ''B''] ''5666'' []) = Inr rs \<and> length rs = 2
       \<and> rs ! 0 = \<lparr>device_id = ''A'', success = False,
                    error = Some ''Authentication failed. Check API token.''\<rparr>)
   \<and> prefix [move_request cfg0 ''A'' ''5666'', move_request cfg0 ''B'' ''5666'']
        (snd (move_devices cfg0 srv1 [''A'', ''B''] ''5666'' []))
   \<and> \<not> isinstance (UnicodeEncodeError, ''surrogates not allowed'') PRTGClientError"
proof -
  let ?ids = "[''A'', ''B'']"
  let ?req = "\<lambda>d. move_request cfg0 d ''5666''"
  note T = move_devices_no_client_error_escapes [of cfg0 srv1 ?ids "''5666''" "[]"]
  note U = move_devices_no_client_error_escapes [of cfg0 srv3 "[''B'']" "''5666''" "[]"]
  have r0: "srv1 ([] @ map ?req (take 0 ?ids)) (move_request cfg0 (?ids ! 0) ''5666'')
              = Response \<lparr>status_code = 401, resp_text = ''denied'', resp_json = Inl ''x''\<rparr>
            \<and> status_code \<lparr>status_code = 401, resp_text = ''denied'', resp_json = Inl ''x''\<rparr> = 401"
    by (simp add: move_request_def)
  from T r0 have o0: "fst (move_device cfg0 srv1 (?ids ! 0) ''5666'' ([] @ map ?req (take 0 ?ids)))
              = Inl (PRTGAuthenticationError, ''Authentication failed. Check API token.'')"
    and inst: "isinstance (PRTGAuthenticationError, ''Authentication failed. Check API token.'')
                 PRTGClientError"
    by blast+
  have o1: "fst (move_device cfg0 srv1 ''B'' ''5666'' [?req ''A'']) = Inr True"
    by code_simp
  have all: "\<forall>i<length ?ids. returned_or_caught
           (fst (move_device cfg0 srv1 (?ids ! i) ''5666'' ([] @ map ?req (take i ?ids))))"
  proof (intro allI impI)
    fix i assume "i < length ?ids"
    then have "i = 0 \<or> i = 1" by auto
    then show "returned_or_caught
           (fst (move_device cfg0 srv1 (?ids ! i) ''5666'' ([] @ map ?req (take i ?ids))))"
      using o0 o1 inst by (auto simp: returned_or_caught_def)
  qed
  from T all obtain rs where rs: "fst (move_devices cfg0 srv1 ?ids ''5666'' []) = Inr rs"
    "length rs = length ?ids"
    "\<forall>i<length ?ids. \<forall>e.
        fst (move_device cfg0 srv1 (?ids ! i) ''5666'' ([] @ map ?req (take i ?ids))) = Inl e
        \<longrightarrow> rs ! i = \<lparr>device_id = ?ids ! i, success = False, error = Some (snd e)\<rparr>"
    by blast
  have "0 < length ?ids" by simp
  with rs(3) o0 have "rs ! 0 = \<lparr>device_id = ?ids ! 0, success = False,
      error = Some (snd (PRTGAuthenticationError, ''Authentication failed. Check API token.''))\<rparr>"
    by blast
  with rs(1) rs(2) have c1: "\<exists>rs. fst (move_devices cfg0 srv1 ?ids ''5666'' []) = Inr rs
       \<and> length rs = 2
       \<and> rs ! 0 = \<lparr>device_id = ''A'', success = False,
                    error = Some ''Authentication failed. Check API token.''\<rparr>"
    by simp
  have h3: "Suc 0 < length ?ids
           \<and> (\<forall>i<0. returned_or_caught
                  (fst (move_device cfg0 srv1 (?ids ! i) ''5666'' ([] @ map ?req (take i ?ids)))))
           \<and> fst (move_device cfg0 srv1 (?ids ! 0) ''5666'' ([] @ map ?req (take 0 ?ids)))
               = Inl (PRTGAuthenticationError, ''Authentication failed. Check API token.'')
           \<and> isinstance (PRTGAuthenticationError, ''Authentication failed. Check API token.'')
                PRTGClientError"
    using o0 inst by simp
  from T h3 have "prefix ([] @ map ?req (take (Suc (Suc 0)) ?ids))
                   (snd (move_devices cfg0 srv1 ?ids ''5666'' []))"
    by blast
  then have pf: "prefix [?req ''A'', ?req ''B''] (snd (move_devices cfg0 srv1 ?ids ''5666'' []))"
    by simp
  have e3: "fst (move_devices cfg0 srv3 [''B''] ''5666'' [])
              = Inl (UnicodeEncodeError, ''surrogates not allowed'')"
    by code_simp
  from U e3 have ni: "\<not> isinstance (UnicodeEncodeError, ''surrogates not allowed'') PRTGClientError"
    by blast
  from c1 pf ni show ?thesis by blast
qed

text \<open>
  C9 as stated fails for an error outside the client-error classes: when the request
  for \<open>A\<close> raises \<open>OSError\<close>, the single move raises it unchanged, and \<open>move_devices\<close>
  over \<open>[A, B]\<close> raises it too, after one request: the error is not turned into a
  failure record and the batch does not continue.
\<close>

theorem move_devices_foreign_error_not_recorded_counterexample:
  "fst (move_device cfg0 srv4 ''A'' ''5666'' [])
     = Inl (OSError, ''Could not find a suitable TLS CA certificate bundle'')
   \<and> fst (move_devices cfg0 srv4 [''A'', ''B''] ''5666'' [])
     = Inl (OSError, ''Could not find a suitable TLS CA certificate bundle'')
   \<and> length (snd (move_devices cfg0 srv4 [''A'', ''B''] ''5666'' [])) = 1"
  by code_simp

text \<open>Two 200 responses: \<open>Ok\<close> is a success, \<open>fail\<close> raises.\<close>

theorem move_device_ok_iff_witness:
  "fst (move_device cfg0
          (\<lambda>log req. Response \<lparr>status_code = 200, resp_text = ''Ok'', resp_json = Inl ''x''\<rparr>)
          ''2001'' ''5666'' []) = Inr True
   \<and> fst (move_device cfg0
          (\<lambda>log req. Response \<lparr>status_code = 200, resp_text = ''fail'', resp_json = Inl ''x''\<rparr>)
          ''2001'' ''5666'' [])
       = Inl (PRTGAPIError, ''Unexpected response from move operation: fail'')"
proof -
  have a: "\<exists>i. Suc i < length ''Ok'' \<and> (''Ok'' ! i = CHR ''o'' \<or> ''Ok'' ! i = CHR ''O'')
              \<and> (''Ok'' ! Suc i = CHR ''k'' \<or> ''Ok'' ! Suc i = CHR ''K'')"
    by (rule exI [of _ 0]) simp
  have b: "\<not> (\<exists>i. Suc i < length ''fail'' \<and> (''fail'' ! i = CHR ''o'' \<or> ''fail'' ! i = CHR ''O'')
              \<and> (''fail'' ! Suc i = CHR ''k'' \<or> ''fail'' ! Suc i = CHR ''K''))"
    by (auto simp: less_Suc_eq nth_Cons')
  show ?thesis
    using a b
      move_device_ok_iff [of "\<lambda>log req. Response \<lparr>status_code = 200, resp_text = ''Ok'', resp_json = Inl ''x''\<rparr>"
        "[]" cfg0 "''2001''" "''5666''"
        "\<lparr>status_code = 200, resp_text = ''Ok'', resp_json = Inl ''x''\<rparr>"]
      move_device_ok_iff [of "\<lambda>log req. Response \<lparr>status_code = 200, resp_text = ''fail'', resp_json = Inl ''x''\<rparr>"
        "[]" cfg0 "''2001''" "''5666''"
        "\<lparr>status_code = 200, resp_text = ''fail'', resp_json = Inl ''x''\<rparr>"]
    by simp
qed

text \<open>
  C1, as the code has it. \<open>_request\<close> and \<open>get_sensor_historicdata\<close> each issue exactly
  one request, whose parameters always have the key \<open>apitoken\<close>. For
  \<open>get_sensor_historicdata\<close> its value is the profile's token. For \<open>_request\<close> it is
  the profile's token when the caller's \<open>params\<close> are absent or have no \<open>apitoken\<close>
  key; a caller-supplied \<open>apitoken\<close> replaces the token.
\<close>

theorem request_apitoken_sent:
  "(\<exists>req. snd (request cfg srv endpoint params method log) = log @ [req] \<and>
      req_params req ''apitoken'' =
        (case params of
           None \<Rightarrow> Some (PyStr (api_token cfg))
         | Some p \<Rightarrow> (case p ''apitoken'' of
                       None \<Rightarrow> Some (PyStr (api_token cfg))
                     | Some v \<Rightarrow> Some v)))
   \<and> (\<exists>req. snd (get_sensor_historicdata cfg srv sensor_id start_date end_date avg_interval
                    output_format log) = log @ [req] \<and>
          req_params req ''apitoken'' = Some (PyStr (api_token cfg)))"
proof
  show "\<exists>req. snd (request cfg srv endpoint params method log) = log @ [req] \<and>
      req_params req ''apitoken'' =
        (case params of
           None \<Rightarrow> Some (PyStr (api_token cfg))
         | Some p \<Rightarrow> (case p ''apitoken'' of
                       None \<Rightarrow> Some (PyStr (api_token cfg))
                     | Some v \<Rightarrow> Some v))"
    by (cases params)
       (auto simp: request_def session_request_def Let_def build_auth_params_def map_add_def
          split: transport_result.splits sum.splits option.splits)
next
  show "\<exists>req. snd (get_sensor_historicdata cfg srv sensor_id start_date end_date avg_interval
                    output_format log) = log @ [req] \<and>
          req_params req ''apitoken'' = Some (PyStr (api_token cfg))"
    by (auto simp: get_sensor_historicdata_def session_request_def Let_def build_auth_params_def
          map_add_def split: transport_result.splits sum.splits)
qed

text \<open>
  C1 as stated fails: with \<open>params = {"apitoken": "other"}\<close> the request sent by
  \<open>_request\<close> carries \<open>other\<close>, not the profile's token.
\<close>

theorem request_apitoken_override_counterexample:
  "req_params
     (last (snd (request cfg0
        (\<lambda>log req. Response \<lparr>status_code = 200, resp_text = ''{}'', resp_json = Inr (PyDict [])\<rparr>)
        ''table.json'' (Some [''apitoken'' \<mapsto> PyStr ''other'']) ''GET'' [])))
     ''apitoken'' = Some (PyStr ''other'')
   \<and> api_token cfg0 = ''TOKEN''"
  by (simp add: request_def session_request_def Let_def build_auth_params_def)

subsection \<open>Batch lookups\<close>

lemma request_log:
  "snd (request cfg srv endpoint (Some p) method log) =
     log @ [\<lparr>req_method = method, req_url = base_url cfg @ ''/'' @ endpoint,
             req_params = build_auth_params cfg ++ p,
             req_verify = verify_ssl cfg, req_timeout = 30\<rparr>]"
  by (simp add: request_def session_request_def Let_def split: transport_result.splits sum.splits)

lemma get_single_log:
  "snd (get_single cfg srv content columns list_model model_name not_found object_id log) =
     log @ [lookup_request cfg content columns object_id]"
  by (simp add: get_single_def split_def request_log lookup_request_def)

lemma loop_step:
  assumes H: "\<And>d l. snd (g d l) = l @ [rq d]"
  shows "get_by_ids_loop g acc (d # ds) log =
     (case fst (g d log) of
        Inr x \<Rightarrow> get_by_ids_loop g (acc @ [x]) ds (log @ [rq d])
      | Inl e \<Rightarrow> if fst e = PRTGNotFoundError
                 then get_by_ids_loop g acc ds (log @ [rq d])
                 else (Inl e, log @ [rq d]))"
proof -
  obtain r l where gr: "g d log = (r, l)" by (cases "g d log")
  with H [of d log] have l: "l = log @ [rq d]" by simp
  have inst: "\<And>e. isinstance e PRTGNotFoundError = (fst e = PRTGNotFoundError)"
  proof -
    fix e :: exc
    show "isinstance e PRTGNotFoundError = (fst e = PRTGNotFoundError)"
      by (cases "fst e") (simp_all add: isinstance_def)
  qed
  show ?thesis
    by (cases r) (simp_all add: gr l inst)
qed

lemma collect_Cons:
  "concat (map (\<lambda>i. case fst (g ((d # ds) ! i) (log @ map rq (take i (d # ds)))) of
                        Inr x \<Rightarrow> [x] | Inl _ \<Rightarrow> []) [0..<length (d # ds)])
   = (case fst (g d log) of Inr x \<Rightarrow> [x] | Inl _ \<Rightarrow> [])
     @ concat (map (\<lambda>i. case fst (g (ds ! i) ((log @ [rq d]) @ map rq (take i ds))) of
                        Inr x \<Rightarrow> [x] | Inl _ \<Rightarrow> []) [0..<length ds])"
proof -
  have "[0..<length (d # ds)] = 0 # map Suc [0..<length ds]"
    by (simp add: upt_conv_Cons map_Suc_upt del: upt_Suc)
  then show ?thesis by (simp add: comp_def del: upt_Suc)
qed

lemma loop_all_found:
  assumes H: "\<And>d l. snd (g d l) = l @ [rq d]"
  shows "(\<forall>i<length ids. found_or_missing (fst (g (ids ! i) (log @ map rq (take i ids))))) \<Longrightarrow>
     get_by_ids_loop g acc ids log =
       (Inr (acc @ concat (map (\<lambda>i. case fst (g (ids ! i) (log @ map rq (take i ids))) of
                                        Inr x \<Rightarrow> [x] | Inl _ \<Rightarrow> []) [0..<length ids])),
        log @ map rq ids)"
proof (induction ids arbitrary: acc log)
  case Nil
  show ?case by simp
next
  case (Cons d ds)
  let ?out = "\<lambda>log ids i. fst (g (ids ! i) (log @ map rq (take i ids)))"
  let ?col = "\<lambda>log ids. concat (map (\<lambda>i. case ?out log ids i of Inr x \<Rightarrow> [x] | Inl _ \<Rightarrow> [])
                                 [0..<length ids])"
  have tl: "\<forall>i<length ds. found_or_missing (?out (log @ [rq d]) ds i)"
  proof (intro allI impI)
    fix i assume "i < length ds"
    then have "Suc i < length (d # ds)" by simp
    with Cons.prems have "found_or_missing (?out log (d # ds) (Suc i))" by blast
    then show "found_or_missing (?out (log @ [rq d]) ds i)" by simp
  qed
  have hd: "found_or_missing (fst (g d log))"
    using Cons.prems [rule_format, of 0] by simp
  have ih: "\<And>acc. get_by_ids_loop g acc ds (log @ [rq d]) =
       (Inr (acc @ ?col (log @ [rq d]) ds), (log @ [rq d]) @ map rq ds)"
    using Cons.IH [OF tl] .
  have st: "get_by_ids_loop g acc (d # ds) log =
     (case fst (g d log) of
        Inr x \<Rightarrow> get_by_ids_loop g (acc @ [x]) ds (log @ [rq d])
      | Inl e \<Rightarrow> if fst e = PRTGNotFoundError
                 then get_by_ids_loop g acc ds (log @ [rq d])
                 else (Inl e, log @ [rq d]))"
    by (rule loop_step [OF H])
  show ?case
  proof (cases "fst (g d log)")
    case (Inr x)
    have "get_by_ids_loop g acc (d # ds) log = get_by_ids_loop g (acc @ [x]) ds (log @ [rq d])"
      using st Inr by simp
    also have "\<dots> = (Inr ((acc @ [x]) @ ?col (log @ [rq d]) ds), (log @ [rq d]) @ map rq ds)"
      by (rule ih)
    also have "\<dots> = (Inr (acc @ ?col log (d # ds)), log @ map rq (d # ds))"
      unfolding collect_Cons using Inr by simp
    finally show ?thesis .
  next
    case (Inl e)
    with hd have nf: "fst e = PRTGNotFoundError"
      by (simp add: found_or_missing_def)
    have "get_by_ids_loop g acc (d # ds) log = get_by_ids_loop g acc ds (log @ [rq d])"
      using st Inl nf by simp
    also have "\<dots> = (Inr (acc @ ?col (log @ [rq d]) ds), (log @ [rq d]) @ map rq ds)"
      by (rule ih)
    also have "\<dots> = (Inr (acc @ ?col log (d # ds)), log @ map rq (d # ds))"
      unfolding collect_Cons using Inl by simp
    finally show ?thesis .
  qed
qed

lemma loop_abort:
  assumes H: "\<And>d l. snd (g d l) = l @ [rq d]"
  shows "k < length ids \<Longrightarrow>
     (\<forall>i<k. found_or_missing (fst (g (ids ! i) (log @ map rq (take i ids))))) \<Longrightarrow>
     fst (g (ids ! k) (log @ map rq (take k ids))) = Inl e \<Longrightarrow> fst e \<noteq> PRTGNotFoundError \<Longrightarrow>
     get_by_ids_loop g acc ids log = (Inl e, log @ map rq (take (Suc k) ids))"
proof (induction ids arbitrary: acc log k)
  case Nil
  then show ?case by simp
next
  case (Cons d ds)
  have st: "get_by_ids_loop g acc (d # ds) log =
     (case fst (g d log) of
        Inr x \<Rightarrow> get_by_ids_loop g (acc @ [x]) ds (log @ [rq d])
      | Inl e \<Rightarrow> if fst e = PRTGNotFoundError
                 then get_by_ids_loop g acc ds (log @ [rq d])
                 else (Inl e, log @ [rq d]))"
    by (rule loop_step [OF H])
  show ?case
  proof (cases k)
    case 0
    with Cons.prems(3) have "fst (g d log) = Inl e" by simp
    with st Cons.prems(4) 0 show ?thesis by simp
  next
    case (Suc j)
    with Cons.prems(1) have j: "j < length ds" by simp
    have pre: "\<forall>i<j. found_or_missing (fst (g (ds ! i) ((log @ [rq d]) @ map rq (take i ds))))"
    proof (intro allI impI)
      fix i assume "i < j"
      then have "Suc i < k" using Suc by simp
      with Cons.prems(2)
      have "found_or_missing (fst (g ((d # ds) ! Suc i) (log @ map rq (take (Suc i) (d # ds)))))"
        by blast
      then show "found_or_missing (fst (g (ds ! i) ((log @ [rq d]) @ map rq (take i ds))))"
        by simp
    qed
    have at: "fst (g (ds ! j) ((log @ [rq d]) @ map rq (take j ds))) = Inl e"
      using Cons.prems(3) Suc by simp
    have ih: "\<And>acc. get_by_ids_loop g acc ds (log @ [rq d]) =
         (Inl e, (log @ [rq d]) @ map rq (take (Suc j) ds))"
      using Cons.IH [OF j pre at Cons.prems(4)] .
    have "0 < k" using Suc by simp
    with Cons.prems(2) have "found_or_missing (fst (g ((d # ds) ! 0) (log @ map rq (take 0 (d # ds)))))"
      by blast
    then have hd: "found_or_missing (fst (g d log))" by simp
    have fin: "(log @ [rq d]) @ map rq (take (Suc j) ds) = log @ map rq (take (Suc k) (d # ds))"
      using Suc by simp
    show ?thesis
    proof (cases "fst (g d log)")
      case (Inr x)
      have "get_by_ids_loop g acc (d # ds) log = get_by_ids_loop g (acc @ [x]) ds (log @ [rq d])"
        using st Inr by simp
      then show ?thesis unfolding ih fin .
    next
      case (Inl e')
      with hd have "fst e' = PRTGNotFoundError" by (simp add: found_or_missing_def)
      with st Inl
      have "get_by_ids_loop g acc (d # ds) log = get_by_ids_loop g acc ds (log @ [rq d])"
        by simp
      then show ?thesis unfolding ih fin .
    qed
  qed
qed

lemma loop_spec:
  assumes H: "\<And>d l. snd (g d l) = l @ [rq d]"
  shows "get_many_spec g rq ids log (get_by_ids_loop g [] ids log)"
proof -
  let ?out = "\<lambda>i. fst (g (ids ! i) (log @ map rq (take i ids)))"
  show ?thesis
  proof (cases "\<forall>i<length ids. found_or_missing (?out i)")
    case True
    have "get_by_ids_loop g [] ids log =
       (Inr ([] @ concat (map (\<lambda>i. case ?out i of Inr x \<Rightarrow> [x] | Inl _ \<Rightarrow> []) [0..<length ids])),
        log @ map rq ids)"
      using True by (rule loop_all_found [OF H])
    with True show ?thesis
      unfolding get_many_spec_def Let_def by simp
  next
    case False
    then have ex: "\<exists>k. k < length ids \<and> \<not> found_or_missing (?out k)" by blast
    define k where "k = (LEAST k. k < length ids \<and> \<not> found_or_missing (?out k))"
    have k: "k < length ids \<and> \<not> found_or_missing (?out k)"
      unfolding k_def using ex by (rule LeastI_ex)
    have least: "\<forall>i<k. found_or_missing (?out i)"
    proof (intro allI impI)
      fix i assume ik: "i < k"
      show "found_or_missing (?out i)"
      proof (rule ccontr)
        assume "\<not> found_or_missing (?out i)"
        with ik k have "i < length ids \<and> \<not> found_or_missing (?out i)" by simp
        then have "k \<le> i" unfolding k_def by (rule Least_le)
        with ik show False by simp
      qed
    qed
    from k obtain e where e: "?out k = Inl e" "fst e \<noteq> PRTGNotFoundError"
      by (cases "?out k") (auto simp: found_or_missing_def)
    have kl: "k < length ids" using k by simp
    have res: "get_by_ids_loop g [] ids log = (Inl e, log @ map rq (take (Suc k) ids))"
      using kl least e(1) e(2) by (rule loop_abort [OF H])
    have c: "(\<forall>i<length ids. found_or_missing (?out i)) = False" using False by simp
    have "\<exists>k<length ids. (\<forall>i<k. found_or_missing (?out i)) \<and> \<not> found_or_missing (?out k) \<and>
             (\<exists>e. ?out k = Inl e \<and>
                  get_by_ids_loop g [] ids log = (Inl e, log @ map rq (take (Suc k) ids)))"
      using k least e(1) res by blast
    then show ?thesis
      unfolding get_many_spec_def Let_def c if_False .
  qed
qed

text \<open>
  C7. Each of \<open>get_devices_by_ids\<close>, \<open>get_sensors_by_ids\<close> and
  \<open>get_groups_by_ids\<close> looks the ids up one after the other with the single lookup.
  If every lookup returns a record or raises \<open>PRTGNotFoundError\<close>, the batch returns
  the records of the ids that were found, in input order, leaving out exactly the ids
  that were not found, and has issued one request per id. Otherwise the first error of
  another kind is raised by the batch, and no id after it is looked up.
\<close>

theorem get_many_by_ids:
  "get_many_spec (get_device L cfg srv columns)
     (lookup_request cfg ''devices'' (case columns of None \<Rightarrow> device_columns | Some c \<Rightarrow> c))
     ids log (get_devices_by_ids L cfg srv ids columns log)
   \<and> get_many_spec (get_sensor L cfg srv columns)
     (lookup_request cfg ''sensors'' (case columns of None \<Rightarrow> sensor_columns | Some c \<Rightarrow> c))
     ids log (get_sensors_by_ids L cfg srv ids columns log)
   \<and> get_many_spec (get_group L cfg srv columns)
     (lookup_request cfg ''groups'' (case columns of None \<Rightarrow> group_columns | Some c \<Rightarrow> c))
     ids log (get_groups_by_ids L cfg srv ids columns log)"
  unfolding get_devices_by_ids_def get_sensors_by_ids_def get_groups_by_ids_def
  by (intro conjI loop_spec) (simp_all add: get_device_def get_sensor_def get_group_def get_single_log)

text \<open>
  The batch \<open>[A, B, missing]\<close> over groups, where the lookup of \<open>missing\<close> is
  answered with 404: the result has the records of \<open>A\<close> and \<open>B\<close>.
\<close>

theorem get_many_by_ids_witness:
  "get_many_spec (get_group lib0 cfg0 srv2 None) (lookup_request cfg0 ''groups'' group_columns)
     [''A'', ''B'', ''missing''] [] (get_groups_by_ids lib0 cfg0 srv2 [''A'', ''B'', ''missing''] None [])
   \<and> (case fst (get_groups_by_ids lib0 cfg0 srv2 [''A'', ''B'', ''missing''] None []) of
        Inr rs \<Rightarrow> map (\<lambda>g. (attr g ''objid'', attr g ''parentid'')) rs
                   = [(Some (PyStr ''A''), Some (PyStr ''1'')), (Some (PyStr ''B''), Some (PyStr ''1''))]
      | Inl e \<Rightarrow> False)"
proof
  show "get_many_spec (get_group lib0 cfg0 srv2 None) (lookup_request cfg0 ''groups'' group_columns)
     [''A'', ''B'', ''missing''] [] (get_groups_by_ids lib0 cfg0 srv2 [''A'', ''B'', ''missing''] None [])"
    using get_many_by_ids [of lib0 cfg0 srv2 None "[''A'', ''B'', ''missing'']" "[]"] by simp
next
  show "case fst (get_groups_by_ids lib0 cfg0 srv2 [''A'', ''B'', ''missing''] None []) of
        Inr rs \<Rightarrow> map (\<lambda>g. (attr g ''objid'', attr g ''parentid'')) rs
                   = [(Some (PyStr ''A''), Some (PyStr ''1'')), (Some (PyStr ''B''), Some (PyStr ''1''))]
      | Inl e \<Rightarrow> False"
    by code_simp
qed

section \<open>Properties of the response models\<close>

lemma lookup_field_upd:
  "fname f \<noteq> k \<Longrightarrow> falias f \<noteq> Some k \<Longrightarrow> lookup_field f (kw(k \<mapsto> v)) = lookup_field f kw"
  by (cases "falias f") (auto simp: lookup_field_def split: option.splits)

lemma validate_field_upd:
  "fname f \<noteq> k \<Longrightarrow> falias f \<noteq> Some k \<Longrightarrow>
   validate_field L sw f (kw(k \<mapsto> v)) = validate_field L sw f kw"
  by (simp add: validate_field_def lookup_field_upd)

lemma validate_fields_upd:
  "(\<And>f. f \<in> set fs \<Longrightarrow> fname f \<noteq> k \<and> falias f \<noteq> Some k) \<Longrightarrow>
   validate_fields L sw fs (kw(k \<mapsto> v)) = validate_fields L sw fs kw"
proof (induction fs)
  case Nil
  show ?case by simp
next
  case (Cons f fs)
  have a: "validate_field L sw f (kw(k \<mapsto> v)) = validate_field L sw f kw"
    using Cons.prems [of f] by (simp add: validate_field_upd)
  have b: "validate_fields L sw fs (kw(k \<mapsto> v)) = validate_fields L sw fs kw"
  proof (rule Cons.IH)
    fix fa assume "fa \<in> set fs"
    then have "fa \<in> set (f # fs)" by simp
    then show "fname fa \<noteq> k \<and> falias fa \<noteq> Some k" by (rule Cons.prems)
  qed
  show ?case by (simp only: validate_fields.simps a b)
qed

lemma validate_fields_append:
  "validate_fields L sw (xs @ ys) kw =
     (case validate_fields L sw xs kw of
        None \<Rightarrow> None
      | Some a \<Rightarrow> (case validate_fields L sw ys kw of None \<Rightarrow> None | Some b \<Rightarrow> Some (a @ b)))"
  by (induction xs) (simp_all split: option.splits)

lemma validate_fields_names:
  "validate_fields L sw fs kw = Some r \<Longrightarrow> map fst r = map fname fs"
  by (induction fs arbitrary: r) (auto split: option.splits)

lemma attr_setattr_other: "k \<noteq> n \<Longrightarrow> attr (setattr n v inst) k = attr inst k"
  by (induction inst) (auto simp: attr_def setattr_def)

lemma attr_derive_count: "k \<noteq> dst \<Longrightarrow> attr (derive_count L src dst inst) k = attr inst k"
  by (simp add: derive_count_def attr_setattr_other split: option.splits pyval.splits)

lemma attr_model_post_init: "attr (model_post_init L inst) ''objid'' = attr inst ''objid''"
  by (simp add: model_post_init_def attr_derive_count)

text \<open>a string-typed required field with a converting validator: null and "1"\<close>

lemma id_field_null:
  "kw k = Some PyNone \<Longrightarrow>
   validate_field L True (required_str k (Some (\<lambda>v. if v = PyNone then PyStr [] else PyStr (py_str L v)))) kw
     = Some (PyStr [])"
  by (simp add: validate_field_def lookup_field_def required_str_def pyd_validate_def pyd_str_def
      pyd_strip_def)

lemma id_field_str:
  "validate_field L True (required_str k (Some (\<lambda>v. if v = PyNone then PyStr [] else PyStr (py_str L v))))
     (kw(k \<mapsto> PyStr ''1'')) \<noteq> None"
  by (simp add: validate_field_def lookup_field_def required_str_def pyd_validate_def pyd_str_def)

lemma map_of_append_skip: "k \<notin> set (map fst a) \<Longrightarrow> map_of (a @ b) k = map_of b k"
  by (induction a) auto

lemma null_id_generic:
  assumes null: "kw k = Some PyNone"
    and xs: "\<And>f. f \<in> set xs \<Longrightarrow> fname f \<noteq> k \<and> falias f \<noteq> Some k"
    and ys: "\<And>f. f \<in> set ys \<Longrightarrow> fname f \<noteq> k \<and> falias f \<noteq> Some k"
    and conv: "conv = (\<lambda>v. if v = PyNone then PyStr [] else PyStr (py_str L v))"
  shows "(\<forall>r. validate_fields L True (xs @ required_str k (Some conv) # ys) kw = Some r
              \<longrightarrow> attr r k = Some (PyStr []))
       \<and> (validate_fields L True (xs @ required_str k (Some conv) # ys) kw = None
            \<longleftrightarrow> validate_fields L True (xs @ required_str k (Some conv) # ys)
                  (kw(k \<mapsto> PyStr ''1'')) = None)"
proof -
  let ?f = "required_str k (Some conv)"
  let ?kw' = "kw(k \<mapsto> PyStr ''1'')"
  have fn: "fname ?f = k" by (simp add: required_str_def)
  have f0: "validate_field L True ?f kw = Some (PyStr [])"
    unfolding conv using null by (rule id_field_null)
  have "validate_field L True ?f ?kw' \<noteq> None"
    unfolding conv by (rule id_field_str)
  then obtain w where f1: "validate_field L True ?f ?kw' = Some w" by blast
  have x1: "validate_fields L True xs ?kw' = validate_fields L True xs kw"
    using xs by (rule validate_fields_upd)
  have y1: "validate_fields L True ys ?kw' = validate_fields L True ys kw"
    using ys by (rule validate_fields_upd)
  have e0: "validate_fields L True (xs @ ?f # ys) kw =
      (case validate_fields L True xs kw of
         None \<Rightarrow> None
       | Some a \<Rightarrow> (case validate_fields L True ys kw of
                     None \<Rightarrow> None
                   | Some b \<Rightarrow> Some (a @ (k, PyStr []) # b)))"
    by (simp only: validate_fields_append validate_fields.simps f0 fn option.case
        split: option.splits) (simp split: option.splits)
  have e1: "validate_fields L True (xs @ ?f # ys) ?kw' =
      (case validate_fields L True xs kw of
         None \<Rightarrow> None
       | Some a \<Rightarrow> (case validate_fields L True ys kw of
                     None \<Rightarrow> None
                   | Some b \<Rightarrow> Some (a @ (k, w) # b)))"
    by (simp only: validate_fields_append validate_fields.simps f1 fn x1 y1 option.case
        split: option.splits) (simp split: option.splits)
  have a: "\<forall>r. validate_fields L True (xs @ ?f # ys) kw = Some r \<longrightarrow> attr r k = Some (PyStr [])"
  proof (intro allI impI)
    fix r assume r: "validate_fields L True (xs @ ?f # ys) kw = Some r"
    then obtain a b where ab: "validate_fields L True xs kw = Some a" "r = a @ (k, PyStr []) # b"
      unfolding e0 by (auto split: option.splits)
    from ab(1) have "map fst a = map fname xs" by (rule validate_fields_names)
    moreover have "k \<notin> set (map fname xs)" using xs by auto
    ultimately have "k \<notin> set (map fst a)" by simp
    then have "map_of (a @ (k, PyStr []) # b) k = map_of ((k, PyStr []) # b) k"
      by (rule map_of_append_skip)
    then show "attr r k = Some (PyStr [])" by (simp add: attr_def ab(2))
  qed
  have b: "validate_fields L True (xs @ ?f # ys) kw = None
            \<longleftrightarrow> validate_fields L True (xs @ ?f # ys) ?kw' = None"
    unfolding e0 e1 by (simp split: option.splits)
  from a b show ?thesis by blast
qed

lemmas field_shorthands =
  required_str_def default_str_def optional_str_def optional_int_def str_list_def

lemma Device_fields_shape:
  "Device_fields L = take 5 (Device_fields L) @ required_str ''objid'' (Some (convert_objid L))
      # drop 6 (Device_fields L)"
  by (simp add: Device_fields_def PRTGObjectModel_fields_def PRTGStatusMixin_fields_def
      PRTGPriorityMixin_fields_def)

lemma Device_fields_before:
  "f \<in> set (take 5 (Device_fields L)) \<Longrightarrow> fname f \<noteq> ''objid'' \<and> falias f \<noteq> Some ''objid''"
  by (auto simp: Device_fields_def PRTGObjectModel_fields_def PRTGStatusMixin_fields_def
      PRTGPriorityMixin_fields_def field_shorthands)

lemma Device_fields_rest:
  "f \<in> set (drop 6 (Device_fields L)) \<Longrightarrow> fname f \<noteq> ''objid'' \<and> falias f \<noteq> Some ''objid''"
  by (auto simp: Device_fields_def PRTGObjectModel_fields_def PRTGStatusMixin_fields_def
      PRTGPriorityMixin_fields_def field_shorthands)

lemma Sensor_fields_shape:
  "Sensor_fields L = take 5 (Sensor_fields L) @ required_str ''objid'' (Some (convert_objid L))
      # drop 6 (Sensor_fields L)"
  by (simp add: Sensor_fields_def PRTGObjectModel_fields_def PRTGStatusMixin_fields_def
      PRTGPriorityMixin_fields_def)

lemma Sensor_fields_before:
  "f \<in> set (take 5 (Sensor_fields L)) \<Longrightarrow> fname f \<noteq> ''objid'' \<and> falias f \<noteq> Some ''objid''"
  by (auto simp: Sensor_fields_def PRTGObjectModel_fields_def PRTGStatusMixin_fields_def
      PRTGPriorityMixin_fields_def field_shorthands)

lemma Sensor_fields_rest:
  "f \<in> set (drop 6 (Sensor_fields L)) \<Longrightarrow> fname f \<noteq> ''objid'' \<and> falias f \<noteq> Some ''objid''"
  by (auto simp: Sensor_fields_def PRTGObjectModel_fields_def PRTGStatusMixin_fields_def
      PRTGPriorityMixin_fields_def field_shorthands)

lemma Group_fields_objid:
  "Group_fields L = [] @ required_str ''objid'' (Some (convert_to_string L)) # tl (Group_fields L)"
  by (simp add: Group_fields_def)

lemma Group_fields_objid_rest:
  "f \<in> set (tl (Group_fields L)) \<Longrightarrow> fname f \<noteq> ''objid'' \<and> falias f \<noteq> Some ''objid''"
  by (auto simp: Group_fields_def field_shorthands)

lemma Group_fields_parentid:
  "Group_fields L = take 4 (Group_fields L) @ required_str ''parentid'' (Some (convert_to_string L))
      # drop 5 (Group_fields L)"
  by (simp add: Group_fields_def)

lemma Group_fields_parentid_before:
  "f \<in> set (take 4 (Group_fields L)) \<Longrightarrow> fname f \<noteq> ''parentid'' \<and> falias f \<noteq> Some ''parentid''"
  by (auto simp: Group_fields_def field_shorthands)

lemma Group_fields_parentid_after:
  "f \<in> set (drop 5 (Group_fields L)) \<Longrightarrow> fname f \<noteq> ''parentid'' \<and> falias f \<noteq> Some ''parentid''"
  by (auto simp: Group_fields_def field_shorthands)

lemma convert_objid_eq:
  "convert_objid L = (\<lambda>v. if v = PyNone then PyStr [] else PyStr (py_str L v))"
  by (rule ext) (simp add: convert_objid_def)

lemma convert_to_string_eq:
  "convert_to_string L = (\<lambda>v. if v = PyNone then PyStr [] else PyStr (py_str L v))"
  by (rule ext) (simp add: convert_to_string_def)

lemma model_null_id:
  assumes shape: "fs = xs @ required_str k (Some conv) # ys"
    and xs: "\<And>f. f \<in> set xs \<Longrightarrow> fname f \<noteq> k \<and> falias f \<noteq> Some k"
    and ys: "\<And>f. f \<in> set ys \<Longrightarrow> fname f \<noteq> k \<and> falias f \<noteq> Some k"
    and conv: "conv = (\<lambda>v. if v = PyNone then PyStr [] else PyStr (py_str L v))"
    and M: "\<And>kw. M kw = (case validate_fields L True fs kw of
                             None \<Rightarrow> Inl err | Some inst \<Rightarrow> Inr (post inst))"
    and post: "\<And>inst. attr (post inst) k = attr inst k"
    and null: "kw k = Some PyNone"
  shows "(\<forall>d. M kw = Inr d \<longrightarrow> attr d k = Some (PyStr []))
       \<and> ((\<exists>d. M kw = Inr d) \<longleftrightarrow> (\<exists>d. M (kw(k \<mapsto> PyStr ''1'')) = Inr d))"
proof -
  have g: "(\<forall>r. validate_fields L True (xs @ required_str k (Some conv) # ys) kw = Some r
              \<longrightarrow> attr r k = Some (PyStr []))
       \<and> (validate_fields L True (xs @ required_str k (Some conv) # ys) kw = None
            \<longleftrightarrow> validate_fields L True (xs @ required_str k (Some conv) # ys)
                  (kw(k \<mapsto> PyStr ''1'')) = None)"
    using null xs ys conv by (rule null_id_generic)
  have a: "\<forall>r. validate_fields L True fs kw = Some r \<longrightarrow> attr r k = Some (PyStr [])"
    unfolding shape using g by blast
  have b: "validate_fields L True fs kw = None
        \<longleftrightarrow> validate_fields L True fs (kw(k \<mapsto> PyStr ''1'')) = None"
    unfolding shape using g by blast
  have 1: "\<forall>d. M kw = Inr d \<longrightarrow> attr d k = Some (PyStr [])"
  proof (intro allI impI)
    fix d assume d: "M kw = Inr d"
    then obtain inst where i: "validate_fields L True fs kw = Some inst" "d = post inst"
      unfolding M by (cases "validate_fields L True fs kw") auto
    with a have "attr inst k = Some (PyStr [])" by blast
    with i(2) post show "attr d k = Some (PyStr [])" by simp
  qed
  have 2: "(\<exists>d. M kw = Inr d) \<longleftrightarrow> (\<exists>d. M (kw(k \<mapsto> PyStr ''1'')) = Inr d)"
    using b unfolding M
    by (cases "validate_fields L True fs kw";
        cases "validate_fields L True fs (kw(k \<mapsto> PyStr ''1''))") simp_all
  from 1 2 show ?thesis by blast
qed

lemma Device_null_objid:
  assumes "kw ''objid'' = Some PyNone"
  shows "(\<forall>d. Device L kw = Inr d \<longrightarrow> attr d ''objid'' = Some (PyStr []))
       \<and> ((\<exists>d. Device L kw = Inr d) \<longleftrightarrow> (\<exists>d. Device L (kw(''objid'' \<mapsto> PyStr ''1'')) = Inr d))"
proof (rule model_null_id [where fs = "Device_fields L" and xs = "take 5 (Device_fields L)" and L = L
      and post = "model_post_init L"])
  show "Device_fields L = take 5 (Device_fields L) @ required_str ''objid'' (Some (convert_objid L))
      # drop 6 (Device_fields L)"
    by (rule Device_fields_shape)
  show "\<And>f. f \<in> set (take 5 (Device_fields L)) \<Longrightarrow> fname f \<noteq> ''objid'' \<and> falias f \<noteq> Some ''objid''"
    by (rule Device_fields_before)
  show "\<And>f. f \<in> set (drop 6 (Device_fields L)) \<Longrightarrow> fname f \<noteq> ''objid'' \<and> falias f \<noteq> Some ''objid''"
    by (rule Device_fields_rest)
  show "convert_objid L = (\<lambda>v. if v = PyNone then PyStr [] else PyStr (py_str L v))"
    by (rule convert_objid_eq)
  show "\<And>kw. Device L kw = (case validate_fields L True (Device_fields L) kw of
            None \<Rightarrow> Inl (validation_error ''Device'') | Some inst \<Rightarrow> Inr (model_post_init L inst))"
    by (simp add: Device_def)
  show "\<And>inst. attr (model_post_init L inst) ''objid'' = attr inst ''objid''"
    by (rule attr_model_post_init)
  show "kw ''objid'' = Some PyNone" by fact
qed

lemma Sensor_null_objid:
  assumes "kw ''objid'' = Some PyNone"
  shows "(\<forall>d. Sensor L kw = Inr d \<longrightarrow> attr d ''objid'' = Some (PyStr []))
       \<and> ((\<exists>d. Sensor L kw = Inr d) \<longleftrightarrow> (\<exists>d. Sensor L (kw(''objid'' \<mapsto> PyStr ''1'')) = Inr d))"
proof (rule model_null_id [where fs = "Sensor_fields L" and xs = "take 5 (Sensor_fields L)" and L = L
      and post = "\<lambda>inst. inst"])
  show "Sensor_fields L = take 5 (Sensor_fields L) @ required_str ''objid'' (Some (convert_objid L))
      # drop 6 (Sensor_fields L)"
    by (rule Sensor_fields_shape)
  show "\<And>f. f \<in> set (take 5 (Sensor_fields L)) \<Longrightarrow> fname f \<noteq> ''objid'' \<and> falias f \<noteq> Some ''objid''"
    by (rule Sensor_fields_before)
  show "\<And>f. f \<in> set (drop 6 (Sensor_fields L)) \<Longrightarrow> fname f \<noteq> ''objid'' \<and> falias f \<noteq> Some ''objid''"
    by (rule Sensor_fields_rest)
  show "convert_objid L = (\<lambda>v. if v = PyNone then PyStr [] else PyStr (py_str L v))"
    by (rule convert_objid_eq)
  show "\<And>kw. Sensor L kw = (case validate_fields L True (Sensor_fields L) kw of
            None \<Rightarrow> Inl (validation_error ''Sensor'') | Some inst \<Rightarrow> Inr inst)"
    by (simp add: Sensor_def)
  show "\<And>inst. attr inst ''objid'' = attr inst ''objid''" by simp
  show "kw ''objid'' = Some PyNone" by fact
qed

lemma Group_null_objid:
  assumes "kw ''objid'' = Some PyNone"
  shows "(\<forall>d. Group L kw = Inr d \<longrightarrow> attr d ''objid'' = Some (PyStr []))
       \<and> ((\<exists>d. Group L kw = Inr d) \<longleftrightarrow> (\<exists>d. Group L (kw(''objid'' \<mapsto> PyStr ''1'')) = Inr d))"
proof (rule model_null_id [where fs = "Group_fields L" and xs = "[]" and L = L
      and post = "\<lambda>inst. inst"])
  show "Group_fields L = [] @ required_str ''objid'' (Some (convert_to_string L)) # tl (Group_fields L)"
    by (rule Group_fields_objid)
  show "\<And>f. f \<in> set [] \<Longrightarrow> fname f \<noteq> ''objid'' \<and> falias f \<noteq> Some ''objid''" by simp
  show "\<And>f. f \<in> set (tl (Group_fields L)) \<Longrightarrow> fname f \<noteq> ''objid'' \<and> falias f \<noteq> Some ''objid''"
    by (rule Group_fields_objid_rest)
  show "convert_to_string L = (\<lambda>v. if v = PyNone then PyStr [] else PyStr (py_str L v))"
    by (rule convert_to_string_eq)
  show "\<And>kw. Group L kw = (case validate_fields L True (Group_fields L) kw of
            None \<Rightarrow> Inl (validation_error ''Group'') | Some inst \<Rightarrow> Inr inst)"
    by (simp add: Group_def)
  show "\<And>inst. attr inst ''objid'' = attr inst ''objid''" by simp
  show "kw ''objid'' = Some PyNone" by fact
qed

lemma Group_null_parentid:
  assumes "kw ''parentid'' = Some PyNone"
  shows "(\<forall>d. Group L kw = Inr d \<longrightarrow> attr d ''parentid'' = Some (PyStr []))
       \<and> ((\<exists>d. Group L kw = Inr d) \<longleftrightarrow> (\<exists>d. Group L (kw(''parentid'' \<mapsto> PyStr ''1'')) = Inr d))"
proof (rule model_null_id [where fs = "Group_fields L" and xs = "take 4 (Group_fields L)" and L = L
      and post = "\<lambda>inst. inst"])
  show "Group_fields L = take 4 (Group_fields L) @
      required_str ''parentid'' (Some (convert_to_string L)) # drop 5 (Group_fields L)"
    by (rule Group_fields_parentid)
  show "\<And>f. f \<in> set (take 4 (Group_fields L)) \<Longrightarrow> fname f \<noteq> ''parentid'' \<and> falias f \<noteq> Some ''parentid''"
    by (rule Group_fields_parentid_before)
  show "\<And>f. f \<in> set (drop 5 (Group_fields L)) \<Longrightarrow> fname f \<noteq> ''parentid'' \<and> falias f \<noteq> Some ''parentid''"
    by (rule Group_fields_parentid_after)
  show "convert_to_string L = (\<lambda>v. if v = PyNone then PyStr [] else PyStr (py_str L v))"
    by (rule convert_to_string_eq)
  show "\<And>kw. Group L kw = (case validate_fields L True (Group_fields L) kw of
            None \<Rightarrow> Inl (validation_error ''Group'') | Some inst \<Rightarrow> Inr inst)"
    by (simp add: Group_def)
  show "\<And>inst. attr inst ''parentid'' = attr inst ''parentid''" by simp
  show "kw ''parentid'' = Some PyNone" by fact
qed

text \<open>
  C10. For a payload whose \<open>objid\<close> is an explicit null, constructing a \<open>Device\<close>, a
  \<open>Sensor\<close> or a \<open>Group\<close> stores the empty string for \<open>objid\<close> whenever it
  succeeds, and it succeeds exactly when it succeeds for the same payload with the
  object id \<open>"1"\<close> in place of the null: the null raises no validation error of its
  own. The same holds for a null \<open>parentid\<close> of a \<open>Group\<close>.
\<close>

theorem null_id_stored_as_empty_string:
  "(kw ''objid'' = Some PyNone \<longrightarrow>
      (\<forall>d. Device L kw = Inr d \<longrightarrow> attr d ''objid'' = Some (PyStr []))
    \<and> ((\<exists>d. Device L kw = Inr d) \<longleftrightarrow> (\<exists>d. Device L (kw(''objid'' \<mapsto> PyStr ''1'')) = Inr d)))
 \<and> (kw ''objid'' = Some PyNone \<longrightarrow>
      (\<forall>d. Sensor L kw = Inr d \<longrightarrow> attr d ''objid'' = Some (PyStr []))
    \<and> ((\<exists>d. Sensor L kw = Inr d) \<longleftrightarrow> (\<exists>d. Sensor L (kw(''objid'' \<mapsto> PyStr ''1'')) = Inr d)))
 \<and> (kw ''objid'' = Some PyNone \<longrightarrow>
      (\<forall>d. Group L kw = Inr d \<longrightarrow> attr d ''objid'' = Some (PyStr []))
    \<and> ((\<exists>d. Group L kw = Inr d) \<longleftrightarrow> (\<exists>d. Group L (kw(''objid'' \<mapsto> PyStr ''1'')) = Inr d)))
 \<and> (kw ''parentid'' = Some PyNone \<longrightarrow>
      (\<forall>d. Group L kw = Inr d \<longrightarrow> attr d ''parentid'' = Some (PyStr []))
    \<and> ((\<exists>d. Group L kw = Inr d) \<longleftrightarrow> (\<exists>d. Group L (kw(''parentid'' \<mapsto> PyStr ''1'')) = Inr d)))"
proof (intro conjI impI)
  assume n: "kw ''objid'' = Some PyNone"
  from Device_null_objid [where kw = kw and L = L, OF n]
  show "\<forall>d. Device L kw = Inr d \<longrightarrow> attr d ''objid'' = Some (PyStr [])"
    and "(\<exists>d. Device L kw = Inr d) \<longleftrightarrow> (\<exists>d. Device L (kw(''objid'' \<mapsto> PyStr ''1'')) = Inr d)"
    by blast+
next
  assume n: "kw ''objid'' = Some PyNone"
  from Sensor_null_objid [where kw = kw and L = L, OF n]
  show "\<forall>d. Sensor L kw = Inr d \<longrightarrow> attr d ''objid'' = Some (PyStr [])"
    and "(\<exists>d. Sensor L kw = Inr d) \<longleftrightarrow> (\<exists>d. Sensor L (kw(''objid'' \<mapsto> PyStr ''1'')) = Inr d)"
    by blast+
next
  assume n: "kw ''objid'' = Some PyNone"
  from Group_null_objid [where kw = kw and L = L, OF n]
  show "\<forall>d. Group L kw = Inr d \<longrightarrow> attr d ''objid'' = Some (PyStr [])"
    and "(\<exists>d. Group L kw = Inr d) \<longleftrightarrow> (\<exists>d. Group L (kw(''objid'' \<mapsto> PyStr ''1'')) = Inr d)"
    by blast+
next
  assume n: "kw ''parentid'' = Some PyNone"
  from Group_null_parentid [where kw = kw and L = L, OF n]
  show "\<forall>d. Group L kw = Inr d \<longrightarrow> attr d ''parentid'' = Some (PyStr [])"
    and "(\<exists>d. Group L kw = Inr d) \<longleftrightarrow> (\<exists>d. Group L (kw(''parentid'' \<mapsto> PyStr ''1'')) = Inr d)"
    by blast+
qed

text \<open>
  A device payload with a null \<open>objid\<close> and a group payload with a null \<open>parentid\<close>:
  both records are constructed, with the empty string for the field.
\<close>

theorem null_id_stored_as_empty_string_witness:
  "(\<exists>d. Device lib0 [''objid'' \<mapsto> PyNone, ''name'' \<mapsto> PyStr ''web'', ''status'' \<mapsto> PyStr ''Up'']
          = Inr d \<and> attr d ''objid'' = Some (PyStr []))
   \<and> (\<exists>g. Group lib0 [''objid'' \<mapsto> PyInt 7, ''name'' \<mapsto> PyStr ''root'', ''parentid'' \<mapsto> PyNone]
          = Inr g \<and> attr g ''parentid'' = Some (PyStr []))"
proof -
  let ?kd = "[''objid'' \<mapsto> PyNone, ''name'' \<mapsto> PyStr ''web'', ''status'' \<mapsto> PyStr ''Up'']"
  let ?kg = "[''objid'' \<mapsto> PyInt 7, ''name'' \<mapsto> PyStr ''root'', ''parentid'' \<mapsto> PyNone]"
  have "case Device lib0 ?kd of Inr d \<Rightarrow> True | Inl e \<Rightarrow> False" by code_simp
  then obtain d where d: "Device lib0 ?kd = Inr d" by (cases "Device lib0 ?kd") auto
  have "case Group lib0 ?kg of Inr d \<Rightarrow> True | Inl e \<Rightarrow> False" by code_simp
  then obtain g where g: "Group lib0 ?kg = Inr g" by (cases "Group lib0 ?kg") auto
  have nd: "?kd ''objid'' = Some PyNone" by simp
  have ng: "?kg ''parentid'' = Some PyNone" by simp
  from null_id_stored_as_empty_string [where kw = ?kd and L = lib0] nd d
  have "attr d ''objid'' = Some (PyStr [])" by blast
  moreover from null_id_stored_as_empty_string [where kw = ?kg and L = lib0] ng g
  have "attr g ''parentid'' = Some (PyStr [])" by blast
  ultimately show ?thesis using d g by blast
qed

section \<open>Properties of the historic-data command\<close>

text \<open>
  What the validation does on whole days: with a configuration that resolves and two
  dates that parse, a raw range of more than 40 whole days and any range of more than
  500 whole days end the command with status 5 and no request; an averaged range of at
  most 500 whole days goes on to the request.
\<close>

lemma sensor_data_whole_days_rejected:
  assumes "init_client env parser opts = Inr config"
    and "start_date = Some s" "s \<noteq> []" "end_date = Some e" "e \<noteq> []"
    and "strptime L s = Some start_dt" "strptime L e = Some end_dt"
    and "interval_map (lower interval) = Some avg_interval"
    and "(avg_interval = 0 \<and> delta_days start_dt end_dt > 40) \<or> delta_days start_dt end_dt > 500"
  shows "sensor_data L env parser opts srv sensor_id days hours start_date end_date interval
           output_format output_file head log = (Exit 5, log)"
  using assms
  by (auto simp: sensor_data_def date_range_def validate_date_range_def truthy_def)

lemma sensor_data_within_limits_requested:
  assumes "init_client env parser opts = Inr config"
    and "start_date = Some s" "s \<noteq> []" "end_date = Some e" "e \<noteq> []"
    and "strptime L s = Some start_dt" "strptime L e = Some end_dt"
    and "interval_map (lower interval) = Some avg_interval"
    and "avg_interval \<noteq> 0" "delta_days start_dt end_dt \<le> 500"
  shows "snd (sensor_data L env parser opts srv sensor_id days hours start_date end_date interval
           output_format output_file head log)
         = snd (get_sensor_historicdata config srv sensor_id s e avg_interval output_format log)
       \<and> fst (sensor_data L env parser opts srv sensor_id days hours start_date end_date interval
           output_format output_file head log) \<noteq> Exit 5"
  using assms
  by (auto simp: sensor_data_def date_range_def validate_date_range_def truthy_def write_output_def
        Let_def split: prod.splits sum.splits option.splits pyval.splits)

text \<open>
  C2. The command measures an explicit range in whole days, rounded down
  (\<open>(end_dt - start_dt).days\<close>), and rejects a raw range only when that number
  exceeds 40. The range from 2024-01-01 00:00:00 to 2024-02-10 00:00:01 is 40 days and
  one second long, more than the 40 days that the command's own message and help text
  give as the limit for raw data, but its whole days are 40: the command does not exit
  with status 5, it sends the request and prints the answer.
\<close>

theorem sensor_data_span_over_40_days_accepted:
  "the (strptime cmdlib0 ''2024-02-10-00-00-01'') - the (strptime cmdlib0 ''2024-01-01-00-00-00'')
     = 40 * 86400 + 1
   \<and> fst (sensor_data cmdlib0 env0 parser0 opts0 srv5 ''2460'' None None
            (Some ''2024-01-01-00-00-00'') (Some ''2024-02-10-00-00-01'') ''raw'' ''csv'' None None [])
     = Echoed ''t,v''
   \<and> length (snd (sensor_data cmdlib0 env0 parser0 opts0 srv5 ''2460'' None None
            (Some ''2024-01-01-00-00-00'') (Some ''2024-02-10-00-00-01'') ''raw'' ''csv'' None None []))
     = 1"
  by code_simp

end
